theory Spec2Isabelle
  imports Main "HOL-Library.Multiset"
begin

section \<open>Values, documents and the record store\<close>

text \<open>
  The server (\<^verbatim>\<open>src/lan/backend/server.js\<close>) keeps five MongoDB collections and
  answers HTTP requests whose bodies are JSON objects.  A JavaScript value that comes out
  of a request body is a \<open>jsval\<close>; reading a key that the body does not have yields
  \<open>JUndefined\<close>, as property access does in JavaScript.  Arrays and nested objects are
  not modelled: no handler looks inside one.
\<close>

datatype jsval = JUndefined | JNull | JBool bool | JNum int | JStr string

type_synonym body = "string \<Rightarrow> jsval"

text \<open>JavaScript truthiness, as used by \<^verbatim>\<open>!x\<close>, \<^verbatim>\<open>x || y\<close> and \<^verbatim>\<open>if (x)\<close>.\<close>

fun truthy :: "jsval \<Rightarrow> bool" where
  "truthy JUndefined = False"
| "truthy JNull = False"
| "truthy (JBool b) = b"
| "truthy (JNum n) = (n \<noteq> 0)"
| "truthy (JStr s) = (s \<noteq> [])"

definition js_or :: "jsval \<Rightarrow> jsval \<Rightarrow> jsval" where
  "js_or a b = (if truthy a then a else b)"

text \<open>
  The documents of the five collections.  Identifiers are strings (\<^verbatim>\<open>'c' + Date.now()\<close>
  and the like); fields copied unchecked from a request body are \<open>jsval\<close>s.  A container
  written by the older server variant has no \<^verbatim>\<open>ownerId\<close>, which is \<open>None\<close> here.
  Timestamps are milliseconds since the epoch.
\<close>

record container =
  c_id :: string
  c_name :: jsval
  c_number :: jsval
  c_photo :: jsval
  c_parent :: jsval
  c_ownerId :: "string option"
  c_created :: nat

record item =
  i_id :: string
  i_name :: jsval
  i_quantity :: jsval
  i_minQuantity :: jsval
  i_category :: jsval
  i_photo :: jsval
  i_container :: jsval
  i_created :: nat

record category =
  cat_id :: string
  cat_name :: jsval
  cat_icon :: jsval
  cat_order :: int

record user =
  u_id :: string
  u_name :: jsval
  u_code :: jsval
  u_isAdmin :: jsval
  u_isActive :: bool
  u_inviteToken :: jsval
  u_inviteExpires :: "nat option"

record access =
  a_containerId :: string
  a_userId :: jsval

record store =
  containers :: "container list"
  items :: "item list"
  categories :: "category list"
  users :: "user list"
  containerAccess :: "access list"

text \<open>
  The store operations the handlers call.  A collection is the list of its documents in
  insertion order; \<^verbatim>\<open>findOne\<close>, \<^verbatim>\<open>updateOne\<close> and \<^verbatim>\<open>deleteOne\<close> act on the first match.
\<close>

definition findOne :: "('a \<Rightarrow> bool) \<Rightarrow> 'a list \<Rightarrow> 'a option" where
  "findOne P xs = List.find P xs"

fun updateOne :: "('a \<Rightarrow> bool) \<Rightarrow> ('a \<Rightarrow> 'a) \<Rightarrow> 'a list \<Rightarrow> 'a list" where
  "updateOne P f [] = []"
| "updateOne P f (x # xs) = (if P x then f x # xs else x # updateOne P f xs)"

definition updateMany :: "('a \<Rightarrow> bool) \<Rightarrow> ('a \<Rightarrow> 'a) \<Rightarrow> 'a list \<Rightarrow> 'a list" where
  "updateMany P f xs = map (\<lambda>x. if P x then f x else x) xs"

fun deleteOne :: "('a \<Rightarrow> bool) \<Rightarrow> 'a list \<Rightarrow> 'a list" where
  "deleteOne P [] = []"
| "deleteOne P (x # xs) = (if P x then xs else x # deleteOne P xs)"

definition deleteMany :: "('a \<Rightarrow> bool) \<Rightarrow> 'a list \<Rightarrow> 'a list" where
  "deleteMany P xs = filter (\<lambda>x. \<not> P x) xs"

definition countDocuments :: "('a \<Rightarrow> bool) \<Rightarrow> 'a list \<Rightarrow> nat" where
  "countDocuments P xs = length (filter P xs)"

definition insertOne :: "'a \<Rightarrow> 'a list \<Rightarrow> 'a list" where
  "insertOne x xs = xs @ [x]"

text \<open>
  What \<^verbatim>\<open>insertOne\<close> writes for the object a handler has built: the driver serializes
  a field whose value is \<^verbatim>\<open>undefined\<close> as \<^verbatim>\<open>null\<close>.  The handler answers with the
  JavaScript object itself, where the field is still \<^verbatim>\<open>undefined\<close>.  The user and access
  documents that the handlers build have no such field.
\<close>

definition serialized :: "jsval \<Rightarrow> jsval" where
  "serialized v = (if v = JUndefined then JNull else v)"

definition stored_container :: "container \<Rightarrow> container" where
  "stored_container c =
     c\<lparr>c_name := serialized (c_name c), c_number := serialized (c_number c),
       c_photo := serialized (c_photo c), c_parent := serialized (c_parent c)\<rparr>"

definition stored_item :: "item \<Rightarrow> item" where
  "stored_item i =
     i\<lparr>i_name := serialized (i_name i), i_quantity := serialized (i_quantity i),
       i_minQuantity := serialized (i_minQuantity i), i_category := serialized (i_category i),
       i_photo := serialized (i_photo i), i_container := serialized (i_container i)\<rparr>"

definition stored_category :: "category \<Rightarrow> category" where
  "stored_category c =
     c\<lparr>cat_name := serialized (cat_name c), cat_icon := serialized (cat_icon c)\<rparr>"

text \<open>
  A response is either a failure, the HTTP status with the message the handler sends, or
  the handler's payload.  Every handler sends its failure before it writes, so a failure
  leaves the store as it was.
\<close>

datatype message =
    EnterCode | WrongCode | FillAllFields | CodeFormat | CodeTaken
  | InviteNotFound | InviteExpired | NotAuthorized | UserNotFound | AccessDenied
  | NameRequired | CannotDeleteSelf | HasNestedContainers | HasItems
  | AccessFieldsRequired | ContainerNotFound | OwnerOnly | AccessExists
  | CallStackExceeded | CannotDestructure

type_synonym failure = "nat \<times> message"

section \<open>The access resolver\<close>

text \<open>
  A JavaScript \<^verbatim>\<open>Set\<close> of strings is the list of its members in insertion order.
\<close>

definition set_add :: "string \<Rightarrow> string list \<Rightarrow> string list" where
  "set_add x s = (if x \<in> set s then s else s @ [x])"

definition new_Set :: "string list \<Rightarrow> string list" where
  "new_Set xs = fold set_add xs []"

definition set_has :: "string list \<Rightarrow> jsval \<Rightarrow> bool" where
  "set_has s v = (case v of JStr x \<Rightarrow> x \<in> set s | _ \<Rightarrow> False)"

text \<open>
  \<^verbatim>\<open>xs.forEach(f)\<close> for a callback that updates a state and may throw: the first throw
  ends the loop.
\<close>

fun forEach :: "'a list \<Rightarrow> ('a \<Rightarrow> 's \<Rightarrow> 's option) \<Rightarrow> 's \<Rightarrow> 's option" where
  "forEach [] f s = Some s"
| "forEach (x # xs) f s = (case f x s of None \<Rightarrow> None | Some s' \<Rightarrow> forEach xs f s')"

text \<open>
  \<^verbatim>\<open>addChildren(parentId)\<close> of \<^verbatim>\<open>getAccessibleContainerIds\<close> (server.js lines 232-237):
  it adds every child of \<open>parentId\<close> to \<^verbatim>\<open>allAccessible\<close> and calls itself on the
  child.  The first argument is the number of nested calls the call stack still has room
  for: a call made when it is \<open>0\<close> throws \<^verbatim>\<open>RangeError\<close> (\<open>None\<close>).  The source keeps no
  record of the ids it has visited.
\<close>

fun addChildren :: "nat \<Rightarrow> container list \<Rightarrow> string \<Rightarrow> string list \<Rightarrow> string list option" where
  "addChildren 0 allContainers parentId allAccessible = None"
| "addChildren (Suc depth) allContainers parentId allAccessible =
     forEach (filter (\<lambda>c. c_parent c = JStr parentId) allContainers)
       (\<lambda>child acc. addChildren depth allContainers (c_id child) (set_add (c_id child) acc))
       allAccessible"

definition ownedIds :: "store \<Rightarrow> string \<Rightarrow> string list" where
  "ownedIds st userId =
     new_Set (map c_id (filter (\<lambda>c. c_ownerId c = Some userId) (containers st)))"

definition directAccessIds :: "store \<Rightarrow> string \<Rightarrow> string list" where
  "directAccessIds st userId =
     new_Set (map a_containerId (filter (\<lambda>a. a_userId a = JStr userId) (containerAccess st)))"

definition rootAccessIds :: "store \<Rightarrow> string \<Rightarrow> string list" where
  "rootAccessIds st userId = new_Set (ownedIds st userId @ directAccessIds st userId)"

definition getAccessibleContainerIds :: "nat \<Rightarrow> store \<Rightarrow> string \<Rightarrow> string list option" where
  "getAccessibleContainerIds depth st userId =
     forEach (rootAccessIds st userId)
       (\<lambda>root acc. addChildren depth (containers st) root acc)
       (new_Set (rootAccessIds st userId))"


text \<open>
  The property side.  \<open>child_rel\<close> holds the pairs (parent id, child id) of the
  container table, read off the \<^verbatim>\<open>parent\<close> links; the descendants of an id are what
  its transitive closure reaches, and the table is a forest when no id is its own
  descendant.
\<close>

fun parent_edge :: "jsval \<Rightarrow> string \<Rightarrow> (string \<times> string) list" where
  "parent_edge (JStr p) i = [(p, i)]"
| "parent_edge _ i = []"

definition child_rel :: "container list \<Rightarrow> (string \<times> string) set" where
  "child_rel cs = set (concat (map (\<lambda>c. parent_edge (c_parent c) (c_id c)) cs))"

definition descendants :: "container list \<Rightarrow> string \<Rightarrow> string set" where
  "descendants cs r = (child_rel cs)\<^sup>+ `` {r}"

definition forest :: "container list \<Rightarrow> bool" where
  "forest cs = acyclic (child_rel cs)"

text \<open>
  The set the specification describes: the containers the user owns, the containers
  named by the user's ContainerAccess rows, and every descendant of those.
\<close>

definition accessibleContainers_spec :: "store \<Rightarrow> string \<Rightarrow> string set" where
  "accessibleContainers_spec st userId =
     (let roots = {c_id c | c. c \<in> set (containers st) \<and> c_ownerId c = Some userId}
                \<union> {a_containerId a | a. a \<in> set (containerAccess st) \<and> a_userId a = JStr userId}
      in roots \<union> (\<Union>r\<in>roots. descendants (containers st) r))"

text \<open>
  A cycle of parent links lies at or below one of the user's root containers: some root
  reaches, along the child links, an id that is its own descendant.
\<close>

definition root_reaches_cycle :: "store \<Rightarrow> string \<Rightarrow> bool" where
  "root_reaches_cycle st userId =
     (\<exists>r\<in>set (rootAccessIds st userId). \<exists>x.
        (r, x) \<in> (child_rel (containers st))\<^sup>* \<and> (x, x) \<in> (child_rel (containers st))\<^sup>+)"

section \<open>Authentication\<close>

text \<open>\<^verbatim>\<open>authMiddleware\<close> reads the header \<^verbatim>\<open>X-User-Id\<close>; \<^verbatim>\<open>adminOnly\<close> follows it.\<close>

definition authMiddleware :: "store \<Rightarrow> string option \<Rightarrow> failure + user" where
  "authMiddleware st x_user_id =
     (case x_user_id of
        None \<Rightarrow> Inl (401, NotAuthorized)
      | Some userId \<Rightarrow>
          if userId = [] then Inl (401, NotAuthorized)
          else (case findOne (\<lambda>u. u_id u = userId \<and> u_isActive u) (users st) of
                  None \<Rightarrow> Inl (401, UserNotFound)
                | Some user \<Rightarrow> Inr user))"

definition adminOnly :: "user \<Rightarrow> failure + user" where
  "adminOnly user = (if \<not> truthy (u_isAdmin user) then Inl (403, AccessDenied) else Inr user)"

definition with_auth :: "store \<Rightarrow> string option \<Rightarrow> (user \<Rightarrow> failure + 'a) \<Rightarrow> failure + 'a" where
  "with_auth st x_user_id handler =
     (case authMiddleware st x_user_id of Inl e \<Rightarrow> Inl e | Inr user \<Rightarrow> handler user)"

definition with_admin :: "store \<Rightarrow> string option \<Rightarrow> (user \<Rightarrow> failure + 'a) \<Rightarrow> failure + 'a" where
  "with_admin st x_user_id handler =
     with_auth st x_user_id
       (\<lambda>user. case adminOnly user of Inl e \<Rightarrow> Inl e | Inr admin \<Rightarrow> handler admin)"

text \<open>
  A user document as the JavaScript object the handlers destructure: its keys in order.
  \<^verbatim>\<open>const { code, _id, ...rest } = u\<close> keeps every key but the named ones.  A date is shown
  by its milliseconds.
\<close>

type_synonym obj = "(string \<times> jsval) list"

definition user_obj :: "user \<Rightarrow> obj" where
  "user_obj u =
     [(''id'', JStr (u_id u)), (''name'', u_name u), (''code'', u_code u),
      (''isAdmin'', u_isAdmin u), (''isActive'', JBool (u_isActive u)),
      (''inviteToken'', u_inviteToken u),
      (''inviteExpires'', case u_inviteExpires u of None \<Rightarrow> JNull | Some t \<Rightarrow> JNum (int t))]"

definition omit :: "string list \<Rightarrow> obj \<Rightarrow> obj" where
  "omit ks ob = filter (\<lambda>kv. fst kv \<notin> set ks) ob"

definition keys :: "obj \<Rightarrow> string set" where
  "keys ob = fst ` set ob"

text \<open>\<^verbatim>\<open>String(n)\<close> for a timestamp, and \<^verbatim>\<open>Date.now() + 7 * 24 * 60 * 60 * 1000\<close>.\<close>

fun dec :: "nat \<Rightarrow> string" where
  "dec n = (if n < 10 then [''0123456789'' ! n] else dec (n div 10) @ [''0123456789'' ! (n mod 10)])"

declare dec.simps [simp del]

definition week_ms :: nat where
  "week_ms = 7 * 24 * 60 * 60 * 1000"

text \<open>
  The test of \<^verbatim>\<open>POST /auth/activate\<close> on the chosen code:
  \<^verbatim>\<open>code.length < 4 || code.length > 6 || !/^\d+$/.test(code)\<close>.  A number has no
  \<^verbatim>\<open>length\<close>, so only the pattern decides, on its decimal form.
\<close>

definition is_digit :: "char \<Rightarrow> bool" where
  "is_digit ch = (ch \<in> set ''0123456789'')"

fun code_malformed :: "jsval \<Rightarrow> bool" where
  "code_malformed (JStr s) = (length s < 4 \<or> length s > 6 \<or> \<not> (s \<noteq> [] \<and> list_all is_digit s))"
| "code_malformed (JNum n) = (\<not> (0 \<le> n \<and> n < 10 ^ 21))"
| "code_malformed _ = True"

definition post_auth_login :: "store \<Rightarrow> body \<Rightarrow> failure + obj" where
  "post_auth_login st req_body =
     (let code = req_body ''code'' in
      if \<not> truthy code then Inl (400, EnterCode)
      else (case findOne (\<lambda>u. u_code u = code \<and> u_isActive u) (users st) of
              None \<Rightarrow> Inl (401, WrongCode)
            | Some user \<Rightarrow> Inr (omit [''code'', ''_id''] (user_obj user))))"

definition invite_expired :: "nat \<Rightarrow> user \<Rightarrow> bool" where
  "invite_expired now user = (case u_inviteExpires user of None \<Rightarrow> False | Some t \<Rightarrow> t < now)"

text \<open>
  The user after \<^verbatim>\<open>$set: { code, isActive: true, inviteToken: null, inviteExpires: null }\<close>.
  \<^verbatim>\<open>POST /auth/activate\<close> reads the user back by id after the update; destructuring
  \<^verbatim>\<open>null\<close> there would throw and be answered with 500, a branch that is never taken
  since the update has just matched that id.
\<close>

definition activated :: "jsval \<Rightarrow> user \<Rightarrow> user" where
  "activated code u = u\<lparr>u_code := code, u_isActive := True, u_inviteToken := JNull,
     u_inviteExpires := None\<rparr>"

definition post_auth_activate :: "nat \<Rightarrow> store \<Rightarrow> body \<Rightarrow> failure + (obj \<times> store)" where
  "post_auth_activate now st req_body =
     (let inviteToken = req_body ''inviteToken''; code = req_body ''code'' in
      if \<not> truthy inviteToken \<or> \<not> truthy code then Inl (400, FillAllFields)
      else if code_malformed code then Inl (400, CodeFormat)
      else (case findOne (\<lambda>u. u_code u = code \<and> u_isActive u) (users st) of
              Some existingCode \<Rightarrow> Inl (400, CodeTaken)
            | None \<Rightarrow>
               (case findOne (\<lambda>u. u_inviteToken u = inviteToken \<and> \<not> u_isActive u) (users st) of
                  None \<Rightarrow> Inl (404, InviteNotFound)
                | Some user \<Rightarrow>
                    if invite_expired now user then Inl (400, InviteExpired)
                    else
                      (let users' = updateOne (\<lambda>u. u_id u = u_id user) (activated code)
                             (users st)
                       in (case findOne (\<lambda>u. u_id u = u_id user) users' of
                             None \<Rightarrow> Inl (500, CannotDestructure)
                           | Some updated \<Rightarrow>
                               Inr (omit [''code'', ''_id''] (user_obj updated),
                                    st\<lparr>users := users'\<rparr>))))))"

definition get_auth_invite :: "nat \<Rightarrow> store \<Rightarrow> string \<Rightarrow> failure + obj" where
  "get_auth_invite now st token =
     (case findOne (\<lambda>u. u_inviteToken u = JStr token \<and> \<not> u_isActive u) (users st) of
        None \<Rightarrow> Inl (404, InviteNotFound)
      | Some user \<Rightarrow>
          if invite_expired now user then Inl (400, InviteExpired)
          else Inr [(''name'', u_name user), (''id'', JStr (u_id user))])"

section \<open>Users (admin only)\<close>

definition get_users :: "store \<Rightarrow> string option \<Rightarrow> failure + obj list" where
  "get_users st x_user_id =
     with_admin st x_user_id
       (\<lambda>admin. Inr (map (\<lambda>u. omit [''code'', ''_id''] (user_obj u)) (users st)))"

text \<open>
  \<^verbatim>\<open>generateToken()\<close> is random: its result is the argument \<open>token\<close>.  The route
  parameter \<^verbatim>\<open>:id\<close> is the argument \<open>pid\<close>.
\<close>

definition post_users ::
  "nat \<Rightarrow> string \<Rightarrow> store \<Rightarrow> string option \<Rightarrow> body \<Rightarrow> failure + ((obj \<times> string) \<times> store)" where
  "post_users now token st x_user_id req_body =
     with_admin st x_user_id
       (\<lambda>admin.
          let name = req_body ''name''; isAdmin = req_body ''isAdmin'' in
          if \<not> truthy name then Inl (400, NameRequired)
          else
            (let user = \<lparr>u_id = ''u'' @ dec now, u_name = name, u_code = JNull,
                         u_isAdmin = js_or isAdmin (JBool False), u_isActive = False,
                         u_inviteToken = JStr token, u_inviteExpires = Some (now + week_ms)\<rparr>
             in Inr ((omit [''code'', ''_id''] (user_obj user), token),
                     st\<lparr>users := insertOne user (users st)\<rparr>)))"

definition delete_users :: "store \<Rightarrow> string option \<Rightarrow> string \<Rightarrow> failure + (unit \<times> store)" where
  "delete_users st x_user_id pid =
     with_admin st x_user_id
       (\<lambda>admin.
          if pid = u_id admin then Inl (400, CannotDeleteSelf)
          else Inr ((), st\<lparr>users := deleteOne (\<lambda>u. u_id u = pid) (users st),
                            containerAccess :=
                              deleteMany (\<lambda>a. a_userId a = JStr pid) (containerAccess st)\<rparr>))"

definition post_users_reset ::
  "nat \<Rightarrow> string \<Rightarrow> store \<Rightarrow> string option \<Rightarrow> string \<Rightarrow> failure + (string \<times> store)" where
  "post_users_reset now token st x_user_id pid =
     with_admin st x_user_id
       (\<lambda>admin.
          Inr (token,
               st\<lparr>users := updateOne (\<lambda>u. u_id u = pid)
                    (\<lambda>u. u\<lparr>u_code := JNull, u_isActive := False,
                           u_inviteToken := JStr token, u_inviteExpires := Some (now + week_ms)\<rparr>)
                    (users st)\<rparr>))"

section \<open>Sync and containers\<close>

record sync_response =
  r_containers :: "container list"
  r_items :: "item list"
  r_categories :: "category list"

text \<open>\<^verbatim>\<open>find().sort({ order: 1 })\<close> on the categories.\<close>

definition sorted_categories :: "store \<Rightarrow> category list" where
  "sorted_categories st = sort_key cat_order (categories st)"

text \<open>
  \<^verbatim>\<open>GET /sync\<close>.  The \<^verbatim>\<open>RangeError\<close> of an exhausted call stack is caught by the
  handler's \<^verbatim>\<open>try\<close> and answered with status 500.
\<close>

definition get_sync :: "nat \<Rightarrow> store \<Rightarrow> string option \<Rightarrow> failure + sync_response" where
  "get_sync depth st x_user_id =
     with_auth st x_user_id
       (\<lambda>user.
          if truthy (u_isAdmin user)
          then Inr \<lparr>r_containers = containers st, r_items = items st,
                    r_categories = sorted_categories st\<rparr>
          else (case getAccessibleContainerIds depth st (u_id user) of
                  None \<Rightarrow> Inl (500, CallStackExceeded)
                | Some accessibleIds \<Rightarrow>
                    (let cs = filter (\<lambda>c. set_has accessibleIds (JStr (c_id c))) (containers st);
                         idsSet = new_Set (map c_id cs);
                         its = filter (\<lambda>i. set_has idsSet (i_container i)) (items st)
                     in Inr \<lparr>r_containers = cs, r_items = its,
                              r_categories = sorted_categories st\<rparr>)))"

definition get_containers :: "nat \<Rightarrow> store \<Rightarrow> string option \<Rightarrow> failure + container list" where
  "get_containers depth st x_user_id =
     with_auth st x_user_id
       (\<lambda>user.
          if truthy (u_isAdmin user) then Inr (containers st)
          else (case getAccessibleContainerIds depth st (u_id user) of
                  None \<Rightarrow> Inl (500, CallStackExceeded)
                | Some accessibleIds \<Rightarrow>
                    Inr (filter (\<lambda>c. set_has accessibleIds (JStr (c_id c))) (containers st))))"

text \<open>
  \<^verbatim>\<open>POST /containers\<close>: the owner is the creating user unless the body names a parent
  that exists and has a truthy \<^verbatim>\<open>ownerId\<close>.
\<close>

definition new_owner :: "store \<Rightarrow> user \<Rightarrow> body \<Rightarrow> string" where
  "new_owner st user req_body =
     (if truthy (req_body ''parent'')
      then (case findOne (\<lambda>c. JStr (c_id c) = req_body ''parent'') (containers st) of
              None \<Rightarrow> u_id user
            | Some parentContainer \<Rightarrow>
                (case c_ownerId parentContainer of
                   None \<Rightarrow> u_id user
                 | Some ownerId \<Rightarrow> if ownerId \<noteq> [] then ownerId else u_id user))
      else u_id user)"

definition new_container :: "nat \<Rightarrow> store \<Rightarrow> user \<Rightarrow> body \<Rightarrow> container" where
  "new_container now st user req_body =
     \<lparr>c_id = ''c'' @ dec now, c_name = req_body ''name'',
      c_number = js_or (req_body ''number'') JNull,
      c_photo = js_or (req_body ''photo'') JNull,
      c_parent = js_or (req_body ''parent'') JNull,
      c_ownerId = Some (new_owner st user req_body),
      c_created = now\<rparr>"

definition post_containers ::
  "nat \<Rightarrow> store \<Rightarrow> string option \<Rightarrow> body \<Rightarrow> failure + (container \<times> store)" where
  "post_containers now st x_user_id req_body =
     with_auth st x_user_id
       (\<lambda>user.
          let container = new_container now st user req_body
          in Inr (container,
                  st\<lparr>containers := insertOne (stored_container container) (containers st)\<rparr>))"

text \<open>
  The \<^verbatim>\<open>update\<close> object of a \<^verbatim>\<open>PUT\<close> handler carries a key exactly when the body's value
  for it is not \<^verbatim>\<open>undefined\<close>; \<^verbatim>\<open>$set\<close> then overwrites that field and no other.  A
  \<^verbatim>\<open>$set\<close> of the empty object changes nothing, as in MongoDB 5 and later.
\<close>

definition assign :: "jsval \<Rightarrow> jsval \<Rightarrow> jsval" where
  "assign new old = (if new \<noteq> JUndefined then new else old)"

definition set_container :: "body \<Rightarrow> container \<Rightarrow> container" where
  "set_container req_body c =
     c\<lparr>c_name := assign (req_body ''name'') (c_name c),
       c_number := assign (req_body ''number'') (c_number c),
       c_photo := assign (req_body ''photo'') (c_photo c),
       c_parent := assign (req_body ''parent'') (c_parent c)\<rparr>"

definition put_containers ::
  "store \<Rightarrow> string option \<Rightarrow> string \<Rightarrow> body \<Rightarrow> failure + (container option \<times> store)" where
  "put_containers st x_user_id pid req_body =
     with_auth st x_user_id
       (\<lambda>user.
          let containers' = updateOne (\<lambda>c. c_id c = pid) (set_container req_body) (containers st)
          in Inr (findOne (\<lambda>c. c_id c = pid) containers', st\<lparr>containers := containers'\<rparr>))"

definition delete_containers ::
  "store \<Rightarrow> string option \<Rightarrow> string \<Rightarrow> failure + (unit \<times> store)" where
  "delete_containers st x_user_id pid =
     with_auth st x_user_id
       (\<lambda>user.
          if countDocuments (\<lambda>c. c_parent c = JStr pid) (containers st) > 0
          then Inl (400, HasNestedContainers)
          else if countDocuments (\<lambda>i. i_container i = JStr pid) (items st) > 0
          then Inl (400, HasItems)
          else Inr ((), st\<lparr>containers := deleteOne (\<lambda>c. c_id c = pid) (containers st),
                            containerAccess :=
                              deleteMany (\<lambda>a. a_containerId a = pid) (containerAccess st)\<rparr>))"

section \<open>Items\<close>

definition get_items :: "store \<Rightarrow> string option \<Rightarrow> failure + item list" where
  "get_items st x_user_id = with_auth st x_user_id (\<lambda>user. Inr (items st))"

definition post_items ::
  "nat \<Rightarrow> store \<Rightarrow> string option \<Rightarrow> body \<Rightarrow> failure + (item \<times> store)" where
  "post_items now st x_user_id req_body =
     with_auth st x_user_id
       (\<lambda>user.
          let item = \<lparr>i_id = ''i'' @ dec now, i_name = req_body ''name'',
                       i_quantity = js_or (req_body ''quantity'') (JNum 1),
                       i_minQuantity = js_or (req_body ''minQuantity'') (JNum 0),
                       i_category = js_or (req_body ''category'') JNull,
                       i_photo = js_or (req_body ''photo'') JNull,
                       i_container = req_body ''container'',
                       i_created = now\<rparr>
          in Inr (item, st\<lparr>items := insertOne (stored_item item) (items st)\<rparr>))"

definition set_item :: "body \<Rightarrow> item \<Rightarrow> item" where
  "set_item req_body i =
     i\<lparr>i_name := assign (req_body ''name'') (i_name i),
       i_quantity := assign (req_body ''quantity'') (i_quantity i),
       i_minQuantity := assign (req_body ''minQuantity'') (i_minQuantity i),
       i_category := assign (req_body ''category'') (i_category i),
       i_photo := assign (req_body ''photo'') (i_photo i),
       i_container := assign (req_body ''container'') (i_container i)\<rparr>"

definition put_items ::
  "store \<Rightarrow> string option \<Rightarrow> string \<Rightarrow> body \<Rightarrow> failure + (item option \<times> store)" where
  "put_items st x_user_id pid req_body =
     with_auth st x_user_id
       (\<lambda>user.
          let items' = updateOne (\<lambda>i. i_id i = pid) (set_item req_body) (items st)
          in Inr (findOne (\<lambda>i. i_id i = pid) items', st\<lparr>items := items'\<rparr>))"

definition delete_items :: "store \<Rightarrow> string option \<Rightarrow> string \<Rightarrow> failure + (unit \<times> store)" where
  "delete_items st x_user_id pid =
     with_auth st x_user_id
       (\<lambda>user. Inr ((), st\<lparr>items := deleteOne (\<lambda>i. i_id i = pid) (items st)\<rparr>))"

section \<open>Categories\<close>

definition get_categories :: "store \<Rightarrow> string option \<Rightarrow> failure + category list" where
  "get_categories st x_user_id = with_auth st x_user_id (\<lambda>user. Inr (sorted_categories st))"

text \<open>The default icon is the folder emoji, here its UTF-8 bytes.\<close>

definition default_icon :: string where
  "default_icon = [char_of (240::nat), char_of (159::nat), char_of (147::nat), char_of (129::nat)]"

definition next_order :: "store \<Rightarrow> int" where
  "next_order st =
     (case take 1 (rev (sort_key cat_order (categories st))) of
        [] \<Rightarrow> 1
      | maxOrder # _ \<Rightarrow> cat_order maxOrder + 1)"

definition post_categories ::
  "nat \<Rightarrow> store \<Rightarrow> string option \<Rightarrow> body \<Rightarrow> failure + (category \<times> store)" where
  "post_categories now st x_user_id req_body =
     with_auth st x_user_id
       (\<lambda>user.
          let category = \<lparr>cat_id = ''cat'' @ dec now, cat_name = req_body ''name'',
                           cat_icon = js_or (req_body ''icon'') (JStr default_icon),
                           cat_order = next_order st\<rparr>
          in Inr (category,
                  st\<lparr>categories := insertOne (stored_category category) (categories st)\<rparr>))"

definition set_category :: "body \<Rightarrow> category \<Rightarrow> category" where
  "set_category req_body c =
     c\<lparr>cat_name := assign (req_body ''name'') (cat_name c),
       cat_icon := assign (req_body ''icon'') (cat_icon c)\<rparr>"

definition put_categories ::
  "store \<Rightarrow> string option \<Rightarrow> string \<Rightarrow> body \<Rightarrow> failure + (category option \<times> store)" where
  "put_categories st x_user_id pid req_body =
     with_auth st x_user_id
       (\<lambda>user.
          let categories' = updateOne (\<lambda>c. cat_id c = pid) (set_category req_body) (categories st)
          in Inr (findOne (\<lambda>c. cat_id c = pid) categories', st\<lparr>categories := categories'\<rparr>))"

definition delete_categories ::
  "store \<Rightarrow> string option \<Rightarrow> string \<Rightarrow> failure + (unit \<times> store)" where
  "delete_categories st x_user_id pid =
     with_auth st x_user_id
       (\<lambda>user.
          Inr ((), st\<lparr>items := updateMany (\<lambda>i. i_category i = JStr pid)
                               (\<lambda>i. i\<lparr>i_category := JNull\<rparr>) (items st),
                       categories := deleteOne (\<lambda>c. cat_id c = pid) (categories st)\<rparr>))"

section \<open>Container access\<close>

definition post_container_access ::
  "store \<Rightarrow> string option \<Rightarrow> body \<Rightarrow> failure + (unit \<times> store)" where
  "post_container_access st x_user_id req_body =
     with_auth st x_user_id
       (\<lambda>user.
          let containerId = req_body ''containerId''; userId = req_body ''userId'' in
          if \<not> truthy containerId \<or> \<not> truthy userId then Inl (400, AccessFieldsRequired)
          else (case findOne (\<lambda>c. JStr (c_id c) = containerId) (containers st) of
                  None \<Rightarrow> Inl (404, ContainerNotFound)
                | Some container \<Rightarrow>
                    if c_ownerId container \<noteq> Some (u_id user) \<and> \<not> truthy (u_isAdmin user)
                    then Inl (403, OwnerOnly)
                    else (case findOne (\<lambda>a. JStr (a_containerId a) = containerId \<and> a_userId a = userId)
                                 (containerAccess st) of
                            Some existing \<Rightarrow> Inl (400, AccessExists)
                          | None \<Rightarrow>
                              Inr ((), st\<lparr>containerAccess :=
                                     insertOne \<lparr>a_containerId = c_id container, a_userId = userId\<rparr>
                                       (containerAccess st)\<rparr>))))"

definition delete_container_access ::
  "store \<Rightarrow> string option \<Rightarrow> body \<Rightarrow> failure + (unit \<times> store)" where
  "delete_container_access st x_user_id req_body =
     with_auth st x_user_id
       (\<lambda>user.
          let containerId = req_body ''containerId''; userId = req_body ''userId'' in
          if \<not> truthy containerId \<or> \<not> truthy userId then Inl (400, AccessFieldsRequired)
          else (case findOne (\<lambda>c. JStr (c_id c) = containerId) (containers st) of
                  None \<Rightarrow> Inl (404, ContainerNotFound)
                | Some container \<Rightarrow>
                    if c_ownerId container \<noteq> Some (u_id user) \<and> \<not> truthy (u_isAdmin user)
                    then Inl (403, OwnerOnly)
                    else Inr ((), st\<lparr>containerAccess :=
                                deleteOne (\<lambda>a. JStr (a_containerId a) = containerId \<and> a_userId a = userId)
                                  (containerAccess st)\<rparr>)))"

definition get_container_access :: "store \<Rightarrow> string option \<Rightarrow> string \<Rightarrow> failure + access list" where
  "get_container_access st x_user_id containerId =
     with_auth st x_user_id
       (\<lambda>user. Inr (filter (\<lambda>a. a_containerId a = containerId) (containerAccess st)))"

section \<open>The older server variant\<close>

text \<open>
  \<^verbatim>\<open>src/unnamed/part_000\<close> is the same server before users and container access were
  added: three collections, no authentication, containers without \<^verbatim>\<open>number\<close> and
  \<^verbatim>\<open>ownerId\<close>, items without \<^verbatim>\<open>minQuantity\<close>.  Its two handlers that the properties below
  concern are modelled on its own store.
\<close>

record store_v1 =
  v1_containers :: "container list"
  v1_items :: "item list"
  v1_categories :: "category list"

definition delete_containers_v1 :: "store_v1 \<Rightarrow> string \<Rightarrow> failure + (unit \<times> store_v1)" where
  "delete_containers_v1 st pid =
     (if countDocuments (\<lambda>c. c_parent c = JStr pid) (v1_containers st) > 0
      then Inl (400, HasNestedContainers)
      else if countDocuments (\<lambda>i. i_container i = JStr pid) (v1_items st) > 0
      then Inl (400, HasItems)
      else Inr ((), st\<lparr>v1_containers := deleteOne (\<lambda>c. c_id c = pid) (v1_containers st)\<rparr>))"

definition set_item_v1 :: "body \<Rightarrow> item \<Rightarrow> item" where
  "set_item_v1 req_body i =
     i\<lparr>i_name := assign (req_body ''name'') (i_name i),
       i_quantity := assign (req_body ''quantity'') (i_quantity i),
       i_category := assign (req_body ''category'') (i_category i),
       i_photo := assign (req_body ''photo'') (i_photo i),
       i_container := assign (req_body ''container'') (i_container i)\<rparr>"

definition put_items_v1 :: "store_v1 \<Rightarrow> string \<Rightarrow> body \<Rightarrow> failure + (item option \<times> store_v1)" where
  "put_items_v1 st pid req_body =
     (let items' = updateOne (\<lambda>i. i_id i = pid) (set_item_v1 req_body) (v1_items st)
      in Inr (findOne (\<lambda>i. i_id i = pid) items', st\<lparr>v1_items := items'\<rparr>))"

section \<open>The server as a transition system\<close>

text \<open>
  Every route of \<^verbatim>\<open>server.js\<close>, with the header \<^verbatim>\<open>X-User-Id\<close>, the route parameter and
  the body it reads.  \<open>step\<close> is the store after the request: the handler's writes when it
  succeeds and the store as it was when it fails or only reads.
\<close>

datatype request =
    GetHealth
  | PostAuthLogin body
  | PostAuthActivate body
  | GetAuthInvite string
  | GetUsers "string option"
  | PostUsers "string option" body
  | DeleteUsers "string option" string
  | PostUsersReset "string option" string
  | GetSync "string option"
  | GetContainers "string option"
  | PostContainers "string option" body
  | PutContainers "string option" string body
  | DeleteContainers "string option" string
  | GetItems "string option"
  | PostItems "string option" body
  | PutItems "string option" string body
  | DeleteItems "string option" string
  | GetCategories "string option"
  | PostCategories "string option" body
  | PutCategories "string option" string body
  | DeleteCategories "string option" string
  | PostContainerAccess "string option" body
  | DeleteContainerAccess "string option" body
  | GetContainerAccess "string option" string
  | GetSearch "string option" string

definition after :: "store \<Rightarrow> failure + ('a \<times> store) \<Rightarrow> store" where
  "after st response = (case response of Inl e \<Rightarrow> st | Inr (payload, st') \<Rightarrow> st')"

fun step :: "nat \<Rightarrow> string \<Rightarrow> store \<Rightarrow> request \<Rightarrow> store" where
  "step now token st (PostAuthActivate b) = after st (post_auth_activate now st b)"
| "step now token st (PostUsers h b) = after st (post_users now token st h b)"
| "step now token st (DeleteUsers h pid) = after st (delete_users st h pid)"
| "step now token st (PostUsersReset h pid) = after st (post_users_reset now token st h pid)"
| "step now token st (PostContainers h b) = after st (post_containers now st h b)"
| "step now token st (PutContainers h pid b) = after st (put_containers st h pid b)"
| "step now token st (DeleteContainers h pid) = after st (delete_containers st h pid)"
| "step now token st (PostItems h b) = after st (post_items now st h b)"
| "step now token st (PutItems h pid b) = after st (put_items st h pid b)"
| "step now token st (DeleteItems h pid) = after st (delete_items st h pid)"
| "step now token st (PostCategories h b) = after st (post_categories now st h b)"
| "step now token st (PutCategories h pid b) = after st (put_categories st h pid b)"
| "step now token st (DeleteCategories h pid) = after st (delete_categories st h pid)"
| "step now token st (PostContainerAccess h b) = after st (post_container_access st h b)"
| "step now token st (DeleteContainerAccess h b) = after st (delete_container_access st h b)"
| "step now token st _ = st"

text \<open>The ids and owners of the stored containers, in order.\<close>

definition owners :: "store \<Rightarrow> (string \<times> string option) list" where
  "owners st = map (\<lambda>c. (c_id c, c_ownerId c)) (containers st)"

section \<open>Example stores\<close>

text \<open>
  The scenario of the specification: the admin owns the root \<open>c1\<close>, its child \<open>c2\<close> and
  a second root \<open>c3\<close>; bob, a regular user, is granted \<open>c1\<close>; item \<open>i1\<close> lies in \<open>c2\<close>
  and item \<open>i2\<close> in \<open>c3\<close>.
\<close>

definition empty_body :: body where
  "empty_body = (\<lambda>k. JUndefined)"

definition mk_container :: "string \<Rightarrow> jsval \<Rightarrow> string option \<Rightarrow> container" where
  "mk_container i p ow =
     \<lparr>c_id = i, c_name = JStr i, c_number = JNull, c_photo = JNull,
      c_parent = p, c_ownerId = ow, c_created = 0\<rparr>"

definition mk_item :: "string \<Rightarrow> string \<Rightarrow> item" where
  "mk_item i c =
     \<lparr>i_id = i, i_name = JStr i, i_quantity = JNum 1, i_minQuantity = JNum 0,
      i_category = JNull, i_photo = JNull, i_container = JStr c, i_created = 0\<rparr>"

definition admin_user :: user where
  "admin_user = \<lparr>u_id = ''u_admin'', u_name = JStr ''Admin'', u_code = JStr ''0000'',
     u_isAdmin = JBool True, u_isActive = True, u_inviteToken = JNull,
     u_inviteExpires = None\<rparr>"

definition bob_user :: user where
  "bob_user = \<lparr>u_id = ''bob'', u_name = JStr ''Bob'', u_code = JStr ''1234'',
     u_isAdmin = JBool False, u_isActive = True, u_inviteToken = JNull,
     u_inviteExpires = None\<rparr>"

definition carol_user :: user where
  "carol_user = \<lparr>u_id = ''carol'', u_name = JStr ''Carol'', u_code = JNull,
     u_isAdmin = JBool False, u_isActive = False, u_inviteToken = JStr ''T'',
     u_inviteExpires = Some 1000\<rparr>"

definition scenario_store :: store where
  "scenario_store =
     \<lparr>containers = [mk_container ''c1'' JNull (Some ''u_admin''),
                    mk_container ''c2'' (JStr ''c1'') (Some ''u_admin''),
                    mk_container ''c3'' JNull (Some ''u_admin'')],
      items = [mk_item ''i1'' ''c2'', mk_item ''i2'' ''c3''],
      categories = [\<lparr>cat_id = ''cat2'', cat_name = JStr ''Office'', cat_icon = JNull, cat_order = 2\<rparr>,
                    \<lparr>cat_id = ''cat1'', cat_name = JStr ''Tools'', cat_icon = JNull, cat_order = 1\<rparr>],
      users = [admin_user, bob_user],
      containerAccess = [\<lparr>a_containerId = ''c1'', a_userId = JStr ''bob''\<rparr>]\<rparr>"

text \<open>Two containers of bob, each the parent of the other.\<close>

definition cyclic_store :: store where
  "cyclic_store =
     \<lparr>containers = [mk_container ''c1'' (JStr ''c2'') (Some ''bob''),
                    mk_container ''c2'' (JStr ''c1'') (Some ''bob'')],
      items = [], categories = [], users = [admin_user, bob_user], containerAccess = []\<rparr>"

text \<open>
  An access row left behind for a container that is gone, and an item that still names
  that container.
\<close>

definition orphan_store :: store where
  "orphan_store =
     \<lparr>containers = [], items = [mk_item ''i1'' ''c9''], categories = [],
      users = [admin_user, bob_user],
      containerAccess = [\<lparr>a_containerId = ''c9'', a_userId = JStr ''bob''\<rparr>]\<rparr>"

text \<open>Carol has been invited with token \<open>T\<close>, valid until time 1000.\<close>

definition invite_store :: store where
  "invite_store =
     \<lparr>containers = [], items = [], categories = [],
      users = [admin_user, carol_user], containerAccess = []\<rparr>"

text \<open>A container written by the older server variant: it has no owner.\<close>

definition legacy_store :: store where
  "legacy_store =
     \<lparr>containers = [mk_container ''c0'' JNull None], items = [], categories = [],
      users = [admin_user, bob_user], containerAccess = []\<rparr>"

text \<open>One empty container that is shared with two users, and a store of the older variant.\<close>

definition shared_store :: store where
  "shared_store =
     \<lparr>containers = [mk_container ''c1'' JNull (Some ''u_admin'')], items = [], categories = [],
      users = [admin_user, bob_user],
      containerAccess = [\<lparr>a_containerId = ''c1'', a_userId = JStr ''bob''\<rparr>,
                         \<lparr>a_containerId = ''c1'', a_userId = JStr ''carol''\<rparr>]\<rparr>"

definition v1_example :: store_v1 where
  "v1_example =
     \<lparr>v1_containers = [mk_container ''c1'' JNull None, mk_container ''c2'' (JStr ''c1'') None,
                       mk_container ''c3'' JNull None, mk_container ''c4'' JNull None],
      v1_items = [mk_item ''i1'' ''c3''], v1_categories = []\<rparr>"

text \<open>
  The request that redeems carol's invite with the code 4321, and the store after it.
\<close>

definition invite_body :: body where
  "invite_body = empty_body(''inviteToken'' := JStr ''T'', ''code'' := JStr ''4321'')"

definition invite_store_used :: store where
  "invite_store_used = invite_store\<lparr>users := [admin_user, activated (JStr ''4321'') carol_user]\<rparr>"

text \<open>The user that the admin creates at time 5 with the token \<open>tok\<close>.\<close>

definition dan_user :: user where
  "dan_user = \<lparr>u_id = ''u5'', u_name = JStr ''Dan'', u_code = JNull,
     u_isAdmin = JBool False, u_isActive = False, u_inviteToken = JStr ''tok'',
     u_inviteExpires = Some (5 + week_ms)\<rparr>"

text \<open>
  A container of bob that is its own parent, and the scenario after bob has made \<open>c1\<close>
  a child of its own child \<open>c2\<close>.
\<close>

definition loop_store :: store where
  "loop_store =
     \<lparr>containers = [mk_container ''c1'' (JStr ''c1'') (Some ''bob'')],
      items = [], categories = [], users = [admin_user, bob_user], containerAccess = []\<rparr>"

definition reparented_store :: store where
  "reparented_store =
     step 0 [] scenario_store
       (PutContainers (Some ''bob'') ''c1'' (empty_body(''parent'' := JStr ''c2'')))"

text \<open>
  A table that is cyclic elsewhere: the admin's container \<open>c1\<close> is its own parent, and
  bob owns the separate root \<open>c2\<close>.
\<close>

definition elsewhere_store :: store where
  "elsewhere_store =
     \<lparr>containers = [mk_container ''c1'' (JStr ''c1'') (Some ''u_admin''),
                    mk_container ''c2'' JNull (Some ''bob'')],
      items = [], categories = [], users = [admin_user, bob_user], containerAccess = []\<rparr>"

section \<open>Lemmas on the access resolver\<close>


lemma parent_edge_iff: "(p, i) \<in> set (parent_edge v j) \<longleftrightarrow> v = JStr p \<and> j = i"
  by (cases v) auto

lemma child_rel_iff: "(p, i) \<in> child_rel cs \<longleftrightarrow> (\<exists>c\<in>set cs. c_parent c = JStr p \<and> c_id c = i)"
  by (auto simp: child_rel_def parent_edge_iff)

lemma finite_child_rel: "finite (child_rel cs)"
  by (simp add: child_rel_def)

lemma set_set_add: "set (set_add x s) = insert x (set s)"
  by (auto simp: set_add_def)

lemma set_fold_set_add: "set (fold set_add xs s) = set xs \<union> set s"
  by (induction xs arbitrary: s) (auto simp: set_set_add)

lemma set_new_Set: "set (new_Set xs) = set xs"
  by (simp add: new_Set_def set_fold_set_add)

lemma forEach_sound:
  assumes "\<And>x s s'. x \<in> set xs \<Longrightarrow> f x s = Some s' \<Longrightarrow> set s' = set s \<union> D x"
    and "forEach xs f s = Some s'"
  shows "set s' = set s \<union> (\<Union>x\<in>set xs. D x)"
  using assms
proof (induction xs arbitrary: s)
  case Nil
  then show ?case by simp
next
  case (Cons x xs)
  from Cons.prems(2) obtain t where t: "f x s = Some t" and r: "forEach xs f t = Some s'"
    by (auto split: option.splits)
  have "set t = set s \<union> D x" using Cons.prems(1) t by simp
  moreover have "set s' = set t \<union> (\<Union>x\<in>set xs. D x)"
    using Cons.IH [OF _ r] Cons.prems(1) by simp
  ultimately show ?case by auto
qed

lemma descendants_unfold:
  "descendants cs p =
     (\<Union>c\<in>set (filter (\<lambda>c. c_parent c = JStr p) cs). insert (c_id c) (descendants cs (c_id c)))"
proof (rule set_eqI)
  fix i
  have "(p, i) \<in> (child_rel cs)\<^sup>+ \<longleftrightarrow>
        (\<exists>m. (p, m) \<in> child_rel cs \<and> (m = i \<or> (m, i) \<in> (child_rel cs)\<^sup>+))"
    by (metis converse_tranclE trancl_into_trancl2 r_into_trancl')
  then show "i \<in> descendants cs p \<longleftrightarrow>
     i \<in> (\<Union>c\<in>set (filter (\<lambda>c. c_parent c = JStr p) cs). insert (c_id c) (descendants cs (c_id c)))"
    by (auto simp: descendants_def child_rel_iff)
qed

lemma addChildren_sound:
  "addChildren depth cs p acc = Some s \<Longrightarrow> set s = set acc \<union> descendants cs p"
proof (induction depth arbitrary: p acc s)
  case 0
  then show ?case by simp
next
  case (Suc depth)
  let ?kids = "filter (\<lambda>c. c_parent c = JStr p) cs"
  let ?f = "\<lambda>child acc. addChildren depth cs (c_id child) (set_add (c_id child) acc)"
  have run: "forEach ?kids ?f acc = Some s" using Suc.prems by simp
  have step: "\<And>x a a'. x \<in> set ?kids \<Longrightarrow> ?f x a = Some a' \<Longrightarrow>
      set a' = set a \<union> insert (c_id x) (descendants cs (c_id x))"
    using Suc.IH by (auto simp: set_set_add)
  have "set s = set acc \<union> (\<Union>x\<in>set ?kids. insert (c_id x) (descendants cs (c_id x)))"
    by (rule forEach_sound [OF step run])
  then show ?case by (subst descendants_unfold) simp
qed

lemma forEach_total:
  "(\<And>x s. x \<in> set xs \<Longrightarrow> f x s \<noteq> None) \<Longrightarrow> forEach xs f s \<noteq> None"
  by (induction xs arbitrary: s) (auto split: option.splits)

lemma common_bound:
  "(\<And>x. x \<in> set xs \<Longrightarrow> \<exists>k. \<forall>d\<ge>k. P x d) \<Longrightarrow> \<exists>K::nat. \<forall>x\<in>set xs. \<forall>d\<ge>K. P x d"
proof (induction xs)
  case Nil
  then show ?case by simp
next
  case (Cons x xs)
  then obtain K where K: "\<forall>y\<in>set xs. \<forall>d\<ge>K. P y d" by auto
  from Cons.prems obtain k where k: "\<forall>d\<ge>k. P x d" by auto
  have "\<forall>y\<in>set (x # xs). \<forall>d\<ge>max k K. P y d" using K k by auto
  then show ?case by blast
qed

lemma getAccessibleContainerIds_sound:
  assumes "getAccessibleContainerIds depth st userId = Some s"
  shows "set s = accessibleContainers_spec st userId"
proof -
  let ?roots = "rootAccessIds st userId"
  have "set s = set (new_Set ?roots) \<union> (\<Union>r\<in>set ?roots. descendants (containers st) r)"
    by (rule forEach_sound [where f = "\<lambda>root acc. addChildren depth (containers st) root acc"])
       (use assms addChildren_sound in \<open>auto simp: getAccessibleContainerIds_def\<close>)
  moreover have "set ?roots = {c_id c | c. c \<in> set (containers st) \<and> c_ownerId c = Some userId}
                \<union> {a_containerId a | a. a \<in> set (containerAccess st) \<and> a_userId a = JStr userId}"
    by (auto simp: rootAccessIds_def ownedIds_def directAccessIds_def set_new_Set)
  ultimately show ?thesis
    by (simp add: accessibleContainers_spec_def Let_def set_new_Set)
qed

lemma acyclic_empty: "acyclic ({} :: ('a \<times> 'a) set)"
  by (simp add: acyclic_def)

lemmas example_defs = scenario_store_def cyclic_store_def loop_store_def orphan_store_def invite_store_def
  legacy_store_def shared_store_def v1_example_def invite_body_def invite_store_used_def
  mk_container_def mk_item_def admin_user_def bob_user_def carol_user_def
  empty_body_def

lemmas resolver_defs = getAccessibleContainerIds_def rootAccessIds_def ownedIds_def
  directAccessIds_def new_Set_def set_add_def set_has_def

lemma scenario_forest: "forest (containers scenario_store)"
  by (simp add: forest_def child_rel_def example_defs acyclic_empty)

lemma scenario_bob: "getAccessibleContainerIds 2 scenario_store ''bob'' = Some [''c1'', ''c2'']"
  by (simp add: resolver_defs example_defs numeral_2_eq_2)

lemma cyclic_addChildren:
  "addChildren d (containers cyclic_store) ''c1'' acc = None
   \<and> addChildren d (containers cyclic_store) ''c2'' acc = None"
  by (induction d arbitrary: acc) (simp_all add: example_defs)

section \<open>Lemmas on the handlers\<close>

lemma set_has_iff: "set_has s v \<longleftrightarrow> (\<exists>x\<in>set s. v = JStr x)"
  by (cases v) (auto simp: set_has_def)

lemma with_auth_Inr: "authMiddleware st h = Inr user \<Longrightarrow> with_auth st h f = f user"
  by (simp add: with_auth_def)

lemma with_auth_Inl: "authMiddleware st h = Inl e \<Longrightarrow> with_auth st h f = Inl e"
  by (simp add: with_auth_def)

lemma auth_admin: "authMiddleware scenario_store (Some ''u_admin'') = Inr admin_user"
  by (simp add: authMiddleware_def findOne_def example_defs)

lemma auth_bob: "authMiddleware scenario_store (Some ''bob'') = Inr bob_user"
  by (simp add: authMiddleware_def findOne_def example_defs)

lemma sync_items_filter:
  "filter (\<lambda>i. set_has (new_Set (map c_id (filter (\<lambda>c. set_has ids (JStr (c_id c))) cs))) (i_container i)) its
   = filter (\<lambda>i. \<exists>c\<in>set cs. c_id c \<in> set ids \<and> i_container i = JStr (c_id c)) its"
  by (rule filter_cong) (auto simp: set_has_iff set_new_Set)

lemma scenario_sorted: "sorted_categories scenario_store = rev (categories scenario_store)"
  by (simp add: sorted_categories_def example_defs)

lemma c_id_mk_container: "c_id (mk_container i p ow) = i"
  by (simp add: mk_container_def)

lemma scenario_sync_bob:
  "get_sync 2 scenario_store (Some ''bob'') =
     Inr \<lparr>r_containers = [mk_container ''c1'' JNull (Some ''u_admin''),
                           mk_container ''c2'' (JStr ''c1'') (Some ''u_admin'')],
          r_items = [mk_item ''i1'' ''c2''],
          r_categories = rev (categories scenario_store)\<rparr>"
proof -
  have ids: "getAccessibleContainerIds 2 scenario_store (u_id bob_user) = Some [''c1'', ''c2'']"
    using scenario_bob by (simp add: bob_user_def)
  have na: "\<not> truthy (u_isAdmin bob_user)"
    by (simp add: bob_user_def)
  have cs: "filter (\<lambda>c. set_has [''c1'', ''c2''] (JStr (c_id c))) (containers scenario_store)
      = [mk_container ''c1'' JNull (Some ''u_admin''), mk_container ''c2'' (JStr ''c1'') (Some ''u_admin'')]"
    by (simp add: set_has_def scenario_store_def mk_container_def)
  have its: "filter (\<lambda>i. set_has (new_Set [''c1'', ''c2'']) (i_container i)) (items scenario_store)
      = [mk_item ''i1'' ''c2'']"
    by (simp add: set_has_def new_Set_def set_add_def scenario_store_def mk_container_def mk_item_def)
  show ?thesis
    by (simp add: get_sync_def with_auth_Inr [OF auth_bob] ids na cs its scenario_sorted Let_def
        c_id_mk_container)
qed

lemma countDocuments_pos: "countDocuments P xs > 0 \<longleftrightarrow> (\<exists>x\<in>set xs. P x)"
  by (auto simp: countDocuments_def filter_empty_conv)

lemma deleteOne_distinct:
  "distinct (map g xs) \<Longrightarrow> k \<notin> g ` set (deleteOne (\<lambda>x. g x = k) xs)"
  by (induction xs) auto


lemma auth_bob_shared: "authMiddleware shared_store (Some ''bob'') = Inr bob_user"
  by (simp add: authMiddleware_def findOne_def example_defs)

lemma updateOne_missing: "findOne P xs = None \<Longrightarrow> updateOne P f xs = xs"
  by (induction xs) (auto simp: findOne_def split: if_splits)

lemma findOne_updateOne:
  "findOne P xs = Some x \<Longrightarrow> P (f x) \<Longrightarrow> findOne P (updateOne P f xs) = Some (f x)"
  by (induction xs) (auto simp: findOne_def split: if_splits)

lemma updateOne_list_update:
  "findOne P xs = Some x \<Longrightarrow>
   \<exists>k<length xs. xs ! k = x \<and> (\<forall>j<k. \<not> P (xs ! j)) \<and> updateOne P f xs = xs[k := f x]"
proof (induction xs)
  case Nil
  then show ?case by (simp add: findOne_def)
next
  case (Cons y ys)
  show ?case
  proof (cases "P y")
    case True
    then have "x = y" using Cons.prems by (simp add: findOne_def)
    then have "0 < length (y # ys) \<and> (y # ys) ! 0 = x \<and> (\<forall>j<0. \<not> P ((y # ys) ! j))
        \<and> updateOne P f (y # ys) = (y # ys)[0 := f x]"
      using True by simp
    then show ?thesis by blast
  next
    case False
    then have "findOne P ys = Some x" using Cons.prems by (simp add: findOne_def)
    then obtain k where k: "k < length ys" "ys ! k = x" "\<forall>j<k. \<not> P (ys ! j)"
        "updateOne P f ys = ys[k := f x]"
      using Cons.IH by blast
    have "Suc k < length (y # ys) \<and> (y # ys) ! Suc k = x \<and> (\<forall>j<Suc k. \<not> P ((y # ys) ! j))
        \<and> updateOne P f (y # ys) = (y # ys)[Suc k := f x]"
      using k False by (auto simp: less_Suc_eq_0_disj)
    then show ?thesis by blast
  qed
qed

lemma findOne_SomeD: "findOne P xs = Some x \<Longrightarrow> P x \<and> x \<in> set xs"
  by (induction xs) (auto simp: findOne_def split: if_splits)

lemma put_containers_eq:
  assumes "authMiddleware st h = Inr user"
  shows "put_containers st h pid b =
     (case findOne (\<lambda>c. c_id c = pid) (containers st) of
        None \<Rightarrow> Inr (None, st)
      | Some c \<Rightarrow> Inr (Some (set_container b c),
          st\<lparr>containers := updateOne (\<lambda>c. c_id c = pid) (set_container b) (containers st)\<rparr>))"
proof (cases "findOne (\<lambda>c. c_id c = pid) (containers st)")
  case None
  then show ?thesis using assms
    by (simp add: put_containers_def with_auth_Inr updateOne_missing)
next
  case (Some c)
  then have "c_id (set_container b c) = pid"
    using findOne_SomeD [OF Some] by (simp add: set_container_def)
  then show ?thesis using assms Some
    by (simp add: put_containers_def with_auth_Inr findOne_updateOne)
qed

lemma put_items_eq:
  assumes "authMiddleware st h = Inr user"
  shows "put_items st h pid b =
     (case findOne (\<lambda>i. i_id i = pid) (items st) of
        None \<Rightarrow> Inr (None, st)
      | Some i \<Rightarrow> Inr (Some (set_item b i),
          st\<lparr>items := updateOne (\<lambda>i. i_id i = pid) (set_item b) (items st)\<rparr>))"
proof (cases "findOne (\<lambda>i. i_id i = pid) (items st)")
  case None
  then show ?thesis using assms
    by (simp add: put_items_def with_auth_Inr updateOne_missing)
next
  case (Some i)
  then have "i_id (set_item b i) = pid"
    using findOne_SomeD [OF Some] by (simp add: set_item_def)
  then show ?thesis using assms Some
    by (simp add: put_items_def with_auth_Inr findOne_updateOne)
qed

lemma put_categories_eq:
  assumes "authMiddleware st h = Inr user"
  shows "put_categories st h pid b =
     (case findOne (\<lambda>c. cat_id c = pid) (categories st) of
        None \<Rightarrow> Inr (None, st)
      | Some c \<Rightarrow> Inr (Some (set_category b c),
          st\<lparr>categories := updateOne (\<lambda>c. cat_id c = pid) (set_category b) (categories st)\<rparr>))"
proof (cases "findOne (\<lambda>c. cat_id c = pid) (categories st)")
  case None
  then show ?thesis using assms
    by (simp add: put_categories_def with_auth_Inr updateOne_missing)
next
  case (Some c)
  then have "cat_id (set_category b c) = pid"
    using findOne_SomeD [OF Some] by (simp add: set_category_def)
  then show ?thesis using assms Some
    by (simp add: put_categories_def with_auth_Inr findOne_updateOne)
qed

lemma put_items_v1_eq:
  "put_items_v1 st1 pid b =
     (case findOne (\<lambda>i. i_id i = pid) (v1_items st1) of
        None \<Rightarrow> Inr (None, st1)
      | Some i \<Rightarrow> Inr (Some (set_item_v1 b i),
          st1\<lparr>v1_items := updateOne (\<lambda>i. i_id i = pid) (set_item_v1 b) (v1_items st1)\<rparr>))"
proof (cases "findOne (\<lambda>i. i_id i = pid) (v1_items st1)")
  case None
  then show ?thesis
    by (simp add: put_items_v1_def updateOne_missing)
next
  case (Some i)
  then have "i_id (set_item_v1 b i) = pid"
    using findOne_SomeD [OF Some] by (simp add: set_item_v1_def)
  then show ?thesis using Some
    by (simp add: put_items_v1_def findOne_updateOne)
qed

lemma put_containers_found:
  assumes "authMiddleware st x_user_id = Inr user"
  shows "(\<forall>c. findOne (\<lambda>x. c_id x = pid) (containers st) = Some c \<longrightarrow>
     put_containers st x_user_id pid b =
       Inr (Some (set_container b c),
            st\<lparr>containers := updateOne (\<lambda>x. c_id x = pid) (set_container b) (containers st)\<rparr>)
     \<and> (\<exists>n<length (containers st). containers st ! n = c
           \<and> updateOne (\<lambda>x. c_id x = pid) (set_container b) (containers st)
               = (containers st)[n := set_container b c])
     \<and> c_name (set_container b c) = (if b ''name'' = JUndefined then c_name c else b ''name'')
     \<and> c_number (set_container b c) = (if b ''number'' = JUndefined then c_number c else b ''number'')
     \<and> c_photo (set_container b c) = (if b ''photo'' = JUndefined then c_photo c else b ''photo'')
     \<and> c_parent (set_container b c) = (if b ''parent'' = JUndefined then c_parent c else b ''parent'')
     \<and> c_id (set_container b c) = c_id c
     \<and> c_ownerId (set_container b c) = c_ownerId c
     \<and> c_created (set_container b c) = c_created c)"
proof (intro allI impI)
  fix c
  assume f: "findOne (\<lambda>x. c_id x = pid) (containers st) = Some c"
  have frame: "\<exists>n<length (containers st). containers st ! n = c
      \<and> updateOne (\<lambda>x. c_id x = pid) (set_container b) (containers st) = (containers st)[n := set_container b c]"
    using updateOne_list_update [OF f] by blast
  have run: "put_containers st x_user_id pid b =
       Inr (Some (set_container b c),
            st\<lparr>containers := updateOne (\<lambda>x. c_id x = pid) (set_container b) (containers st)\<rparr>)"
    by (simp add: put_containers_eq [OF assms] f)
  show "put_containers st x_user_id pid b =
       Inr (Some (set_container b c),
            st\<lparr>containers := updateOne (\<lambda>x. c_id x = pid) (set_container b) (containers st)\<rparr>)
     \<and> (\<exists>n<length (containers st). containers st ! n = c
           \<and> updateOne (\<lambda>x. c_id x = pid) (set_container b) (containers st)
               = (containers st)[n := set_container b c])
     \<and> c_name (set_container b c) = (if b ''name'' = JUndefined then c_name c else b ''name'')
     \<and> c_number (set_container b c) = (if b ''number'' = JUndefined then c_number c else b ''number'')
     \<and> c_photo (set_container b c) = (if b ''photo'' = JUndefined then c_photo c else b ''photo'')
     \<and> c_parent (set_container b c) = (if b ''parent'' = JUndefined then c_parent c else b ''parent'')
     \<and> c_id (set_container b c) = c_id c
     \<and> c_ownerId (set_container b c) = c_ownerId c
     \<and> c_created (set_container b c) = c_created c"
    using frame run by (simp add: set_container_def assign_def)
qed

lemma put_containers_missing:
  assumes "authMiddleware st x_user_id = Inr user"
  shows "(findOne (\<lambda>x. c_id x = pid) (containers st) = None \<longrightarrow>
        put_containers st x_user_id pid b = Inr (None, st))"
  by (simp add: put_containers_eq [OF assms])

lemma put_items_found:
  assumes "authMiddleware st x_user_id = Inr user"
  shows "(\<forall>i. findOne (\<lambda>x. i_id x = pid) (items st) = Some i \<longrightarrow>
     put_items st x_user_id pid b =
       Inr (Some (set_item b i),
            st\<lparr>items := updateOne (\<lambda>x. i_id x = pid) (set_item b) (items st)\<rparr>)
     \<and> (\<exists>n<length (items st). items st ! n = i
           \<and> updateOne (\<lambda>x. i_id x = pid) (set_item b) (items st)
               = (items st)[n := set_item b i])
     \<and> i_name (set_item b i) = (if b ''name'' = JUndefined then i_name i else b ''name'')
     \<and> i_quantity (set_item b i) = (if b ''quantity'' = JUndefined then i_quantity i else b ''quantity'')
     \<and> i_minQuantity (set_item b i) = (if b ''minQuantity'' = JUndefined then i_minQuantity i else b ''minQuantity'')
     \<and> i_category (set_item b i) = (if b ''category'' = JUndefined then i_category i else b ''category'')
     \<and> i_photo (set_item b i) = (if b ''photo'' = JUndefined then i_photo i else b ''photo'')
     \<and> i_container (set_item b i) = (if b ''container'' = JUndefined then i_container i else b ''container'')
     \<and> i_id (set_item b i) = i_id i
     \<and> i_created (set_item b i) = i_created i)"
proof (intro allI impI)
  fix i
  assume f: "findOne (\<lambda>x. i_id x = pid) (items st) = Some i"
  have frame: "\<exists>n<length (items st). items st ! n = i
      \<and> updateOne (\<lambda>x. i_id x = pid) (set_item b) (items st) = (items st)[n := set_item b i]"
    using updateOne_list_update [OF f] by blast
  have run: "put_items st x_user_id pid b =
       Inr (Some (set_item b i),
            st\<lparr>items := updateOne (\<lambda>x. i_id x = pid) (set_item b) (items st)\<rparr>)"
    by (simp add: put_items_eq [OF assms] f)
  show "put_items st x_user_id pid b =
       Inr (Some (set_item b i),
            st\<lparr>items := updateOne (\<lambda>x. i_id x = pid) (set_item b) (items st)\<rparr>)
     \<and> (\<exists>n<length (items st). items st ! n = i
           \<and> updateOne (\<lambda>x. i_id x = pid) (set_item b) (items st)
               = (items st)[n := set_item b i])
     \<and> i_name (set_item b i) = (if b ''name'' = JUndefined then i_name i else b ''name'')
     \<and> i_quantity (set_item b i) = (if b ''quantity'' = JUndefined then i_quantity i else b ''quantity'')
     \<and> i_minQuantity (set_item b i) = (if b ''minQuantity'' = JUndefined then i_minQuantity i else b ''minQuantity'')
     \<and> i_category (set_item b i) = (if b ''category'' = JUndefined then i_category i else b ''category'')
     \<and> i_photo (set_item b i) = (if b ''photo'' = JUndefined then i_photo i else b ''photo'')
     \<and> i_container (set_item b i) = (if b ''container'' = JUndefined then i_container i else b ''container'')
     \<and> i_id (set_item b i) = i_id i
     \<and> i_created (set_item b i) = i_created i"
    using frame run by (simp add: set_item_def assign_def)
qed

lemma put_items_missing:
  assumes "authMiddleware st x_user_id = Inr user"
  shows "(findOne (\<lambda>x. i_id x = pid) (items st) = None \<longrightarrow>
        put_items st x_user_id pid b = Inr (None, st))"
  by (simp add: put_items_eq [OF assms])

lemma put_categories_found:
  assumes "authMiddleware st x_user_id = Inr user"
  shows "(\<forall>g. findOne (\<lambda>x. cat_id x = pid) (categories st) = Some g \<longrightarrow>
     put_categories st x_user_id pid b =
       Inr (Some (set_category b g),
            st\<lparr>categories := updateOne (\<lambda>x. cat_id x = pid) (set_category b) (categories st)\<rparr>)
     \<and> (\<exists>n<length (categories st). categories st ! n = g
           \<and> updateOne (\<lambda>x. cat_id x = pid) (set_category b) (categories st)
               = (categories st)[n := set_category b g])
     \<and> cat_name (set_category b g) = (if b ''name'' = JUndefined then cat_name g else b ''name'')
     \<and> cat_icon (set_category b g) = (if b ''icon'' = JUndefined then cat_icon g else b ''icon'')
     \<and> cat_id (set_category b g) = cat_id g
     \<and> cat_order (set_category b g) = cat_order g)"
proof (intro allI impI)
  fix g
  assume f: "findOne (\<lambda>x. cat_id x = pid) (categories st) = Some g"
  have frame: "\<exists>n<length (categories st). categories st ! n = g
      \<and> updateOne (\<lambda>x. cat_id x = pid) (set_category b) (categories st) = (categories st)[n := set_category b g]"
    using updateOne_list_update [OF f] by blast
  have run: "put_categories st x_user_id pid b =
       Inr (Some (set_category b g),
            st\<lparr>categories := updateOne (\<lambda>x. cat_id x = pid) (set_category b) (categories st)\<rparr>)"
    by (simp add: put_categories_eq [OF assms] f)
  show "put_categories st x_user_id pid b =
       Inr (Some (set_category b g),
            st\<lparr>categories := updateOne (\<lambda>x. cat_id x = pid) (set_category b) (categories st)\<rparr>)
     \<and> (\<exists>n<length (categories st). categories st ! n = g
           \<and> updateOne (\<lambda>x. cat_id x = pid) (set_category b) (categories st)
               = (categories st)[n := set_category b g])
     \<and> cat_name (set_category b g) = (if b ''name'' = JUndefined then cat_name g else b ''name'')
     \<and> cat_icon (set_category b g) = (if b ''icon'' = JUndefined then cat_icon g else b ''icon'')
     \<and> cat_id (set_category b g) = cat_id g
     \<and> cat_order (set_category b g) = cat_order g"
    using frame run by (simp add: set_category_def assign_def)
qed

lemma put_categories_missing:
  assumes "authMiddleware st x_user_id = Inr user"
  shows "(findOne (\<lambda>x. cat_id x = pid) (categories st) = None \<longrightarrow>
        put_categories st x_user_id pid b = Inr (None, st))"
  by (simp add: put_categories_eq [OF assms])

lemma put_items_v1_found:
  "(\<forall>j. findOne (\<lambda>x. i_id x = pid) (v1_items st1) = Some j \<longrightarrow>
     put_items_v1 st1 pid b =
       Inr (Some (set_item_v1 b j),
            st1\<lparr>v1_items := updateOne (\<lambda>x. i_id x = pid) (set_item_v1 b) (v1_items st1)\<rparr>)
     \<and> (\<exists>n<length (v1_items st1). v1_items st1 ! n = j
           \<and> updateOne (\<lambda>x. i_id x = pid) (set_item_v1 b) (v1_items st1)
               = (v1_items st1)[n := set_item_v1 b j])
     \<and> i_name (set_item_v1 b j) = (if b ''name'' = JUndefined then i_name j else b ''name'')
     \<and> i_quantity (set_item_v1 b j) = (if b ''quantity'' = JUndefined then i_quantity j else b ''quantity'')
     \<and> i_category (set_item_v1 b j) = (if b ''category'' = JUndefined then i_category j else b ''category'')
     \<and> i_photo (set_item_v1 b j) = (if b ''photo'' = JUndefined then i_photo j else b ''photo'')
     \<and> i_container (set_item_v1 b j) = (if b ''container'' = JUndefined then i_container j else b ''container'')
     \<and> i_id (set_item_v1 b j) = i_id j
     \<and> i_minQuantity (set_item_v1 b j) = i_minQuantity j
     \<and> i_created (set_item_v1 b j) = i_created j)"
proof (intro allI impI)
  fix j
  assume f: "findOne (\<lambda>x. i_id x = pid) (v1_items st1) = Some j"
  have frame: "\<exists>n<length (v1_items st1). v1_items st1 ! n = j
      \<and> updateOne (\<lambda>x. i_id x = pid) (set_item_v1 b) (v1_items st1) = (v1_items st1)[n := set_item_v1 b j]"
    using updateOne_list_update [OF f] by blast
  have run: "put_items_v1 st1 pid b =
       Inr (Some (set_item_v1 b j),
            st1\<lparr>v1_items := updateOne (\<lambda>x. i_id x = pid) (set_item_v1 b) (v1_items st1)\<rparr>)"
    by (simp add: put_items_v1_eq f)
  show "put_items_v1 st1 pid b =
       Inr (Some (set_item_v1 b j),
            st1\<lparr>v1_items := updateOne (\<lambda>x. i_id x = pid) (set_item_v1 b) (v1_items st1)\<rparr>)
     \<and> (\<exists>n<length (v1_items st1). v1_items st1 ! n = j
           \<and> updateOne (\<lambda>x. i_id x = pid) (set_item_v1 b) (v1_items st1)
               = (v1_items st1)[n := set_item_v1 b j])
     \<and> i_name (set_item_v1 b j) = (if b ''name'' = JUndefined then i_name j else b ''name'')
     \<and> i_quantity (set_item_v1 b j) = (if b ''quantity'' = JUndefined then i_quantity j else b ''quantity'')
     \<and> i_category (set_item_v1 b j) = (if b ''category'' = JUndefined then i_category j else b ''category'')
     \<and> i_photo (set_item_v1 b j) = (if b ''photo'' = JUndefined then i_photo j else b ''photo'')
     \<and> i_container (set_item_v1 b j) = (if b ''container'' = JUndefined then i_container j else b ''container'')
     \<and> i_id (set_item_v1 b j) = i_id j
     \<and> i_minQuantity (set_item_v1 b j) = i_minQuantity j
     \<and> i_created (set_item_v1 b j) = i_created j"
    using frame run by (simp add: set_item_v1_def assign_def)
qed

lemma put_items_v1_missing:
  "(findOne (\<lambda>x. i_id x = pid) (v1_items st1) = None \<longrightarrow>
        put_items_v1 st1 pid b = Inr (None, st1))"
  by (simp add: put_items_v1_eq)

lemma map_updateOne_same: "(\<And>x. g (f x) = g x) \<Longrightarrow> map g (updateOne P f xs) = map g xs"
  by (induction xs) auto

lemma map_deleteOne: "map g (deleteOne (\<lambda>x. fst (g x) = k) xs) = deleteOne (\<lambda>p. fst p = k) (map g xs)"
  by (induction xs) auto

lemma after_Inl: "after st (Inl e) = st"
  by (simp add: after_def)

lemma after_Inr: "after st (Inr (p, st')) = st'"
  by (simp add: after_def)

lemma after_with_auth:
  "after st (with_auth st h f) =
     (case authMiddleware st h of Inl e \<Rightarrow> st | Inr user \<Rightarrow> after st (f user))"
  by (simp add: with_auth_def after_def split: sum.splits)

lemma after_with_admin:
  "after st (with_admin st h f) =
     (case authMiddleware st h of Inl e \<Rightarrow> st
      | Inr user \<Rightarrow> if truthy (u_isAdmin user) then after st (f user) else st)"
  by (simp add: with_admin_def with_auth_def adminOnly_def after_def split: sum.splits)

lemma containers_activate: "containers (after st (post_auth_activate now st b)) = containers st"
  by (simp add: post_auth_activate_def after_def Let_def split: option.splits)

lemma containers_step_other:
  "containers (step now token st (PostUsers h b)) = containers st"
  "containers (step now token st (DeleteUsers h pid)) = containers st"
  "containers (step now token st (PostUsersReset h pid)) = containers st"
  "containers (step now token st (PostItems h b)) = containers st"
  "containers (step now token st (PutItems h pid b)) = containers st"
  "containers (step now token st (DeleteItems h pid)) = containers st"
  "containers (step now token st (PostCategories h b)) = containers st"
  "containers (step now token st (PutCategories h pid b)) = containers st"
  "containers (step now token st (DeleteCategories h pid)) = containers st"
  "containers (step now token st (PostContainerAccess h b)) = containers st"
  "containers (step now token st (DeleteContainerAccess h b)) = containers st"
  by (simp_all add: after_with_auth after_with_admin after_Inl after_Inr Let_def
      post_users_def delete_users_def post_users_reset_def post_items_def put_items_def
      delete_items_def post_categories_def put_categories_def delete_categories_def
      post_container_access_def delete_container_access_def
      split: sum.splits option.splits)

lemma containers_step_put:
  "containers (step now token st (PutContainers h pid b)) =
     (case authMiddleware st h of
        Inl e \<Rightarrow> containers st
      | Inr user \<Rightarrow> updateOne (\<lambda>c. c_id c = pid) (set_container b) (containers st))"
  by (simp add: after_with_auth after_Inr put_containers_def Let_def split: sum.splits)

lemma containers_step_delete:
  "containers (step now token st (DeleteContainers h pid)) = containers st
   \<or> containers (step now token st (DeleteContainers h pid))
       = deleteOne (\<lambda>c. c_id c = pid) (containers st)"
  by (simp add: after_with_auth after_Inr after_Inl delete_containers_def split: sum.splits)


lemma stored_container_sel:
  "c_id (stored_container c) = c_id c"
  "c_ownerId (stored_container c) = c_ownerId c"
  "c_created (stored_container c) = c_created c"
  "c_parent (stored_container c) = serialized (c_parent c)"
  "c_name (stored_container c) = serialized (c_name c)"
  by (simp_all add: stored_container_def)

lemma post_containers_eq:
  "authMiddleware st h = Inr user \<Longrightarrow>
   post_containers now st h b =
     Inr (new_container now st user b,
          st\<lparr>containers := containers st @ [stored_container (new_container now st user b)]\<rparr>)"
  by (simp add: post_containers_def with_auth_Inr Let_def insertOne_def)

lemma containers_step_post:
  "containers (step now token st (PostContainers h b)) =
     (case authMiddleware st h of
        Inl e \<Rightarrow> containers st
      | Inr user \<Rightarrow> containers st @ [stored_container (new_container now st user b)])"
  by (cases "authMiddleware st h")
     (simp_all add: post_containers_def with_auth_def after_def Let_def insertOne_def)

lemma containers_step_cases:
  "containers (step now token st req) = containers st
   \<or> (\<exists>h pid. req = DeleteContainers h pid
         \<and> containers (step now token st req) = deleteOne (\<lambda>c. c_id c = pid) (containers st))
   \<or> (\<exists>h pid b. req = PutContainers h pid b
         \<and> containers (step now token st req)
            = updateOne (\<lambda>c. c_id c = pid) (set_container b) (containers st))
   \<or> (\<exists>h b user. req = PostContainers h b \<and> authMiddleware st h = Inr user
         \<and> containers (step now token st req)
            = containers st @ [stored_container (new_container now st user b)])"
proof (cases req)
  case (PostAuthActivate b)
  then show ?thesis using containers_activate [of st now b] by simp
next
  case (PostContainers h b)
  then show ?thesis using containers_step_post [of now token st h b]
    by (cases "authMiddleware st h") simp_all
next
  case (PutContainers h pid b)
  then show ?thesis using containers_step_put [of now token st h pid b]
    by (cases "authMiddleware st h") simp_all
next
  case (DeleteContainers h pid)
  then show ?thesis using containers_step_delete [of now token st h pid] by auto
qed (use containers_step_other [of now token st] in simp_all)


lemma owners_step:
  "owners (step now token st req) = owners st
   \<or> (\<exists>x. owners (step now token st req) = owners st @ [x])
   \<or> (\<exists>k. owners (step now token st req) = deleteOne (\<lambda>p. fst p = k) (owners st))"
proof -
  have put: "map (\<lambda>c. (c_id c, c_ownerId c)) (updateOne P (set_container b) cs)
      = map (\<lambda>c. (c_id c, c_ownerId c)) cs" for P b cs
    by (rule map_updateOne_same) (simp add: set_container_def)
  have del: "map (\<lambda>c. (c_id c, c_ownerId c)) (deleteOne (\<lambda>c. c_id c = k) cs)
      = deleteOne (\<lambda>p. fst p = k) (map (\<lambda>c. (c_id c, c_ownerId c)) cs)" for k cs
    using map_deleteOne [of "\<lambda>c. (c_id c, c_ownerId c)" k cs] by simp
  from containers_step_cases [of now token st req] show ?thesis
    unfolding owners_def by (elim disjE exE conjE) (simp_all add: put del, blast)
qed

lemma new_owner_cases:
  "(\<not> truthy (b ''parent'') \<longrightarrow> new_owner st user b = u_id user)
   \<and> (\<forall>pc ow. truthy (b ''parent'')
         \<and> findOne (\<lambda>x. JStr (c_id x) = b ''parent'') (containers st) = Some pc
         \<and> c_ownerId pc = Some ow \<and> ow \<noteq> [] \<longrightarrow> Some (new_owner st user b) = c_ownerId pc)
   \<and> (\<forall>pc. truthy (b ''parent'')
         \<and> findOne (\<lambda>x. JStr (c_id x) = b ''parent'') (containers st) = Some pc
         \<and> (c_ownerId pc = None \<or> c_ownerId pc = Some []) \<longrightarrow> new_owner st user b = u_id user)
   \<and> (truthy (b ''parent'')
         \<and> findOne (\<lambda>x. JStr (c_id x) = b ''parent'') (containers st) = None
       \<longrightarrow> new_owner st user b = u_id user)"
  by (auto simp: new_owner_def)

lemma auth_bob_legacy: "authMiddleware legacy_store (Some ''bob'') = Inr bob_user"
  by (simp add: authMiddleware_def findOne_def example_defs)

lemma dec_5: "dec 5 = ''5''"
  by (simp add: dec.simps)

lemma child_rel_append: "child_rel (xs @ ys) = child_rel xs \<union> child_rel ys"
  by (simp add: child_rel_def)






lemma scenario_child_rel: "child_rel (containers scenario_store) = {(''c1'', ''c2'')}"
  by (simp add: child_rel_def scenario_store_def mk_container_def)

lemma keys_omit: "keys (omit ks ob) = keys ob - set ks"
  by (auto simp: keys_def omit_def)

lemma code_not_in_safe: "''code'' \<notin> keys (omit [''code'', ''_id''] ob)"
  by (simp add: keys_omit)

lemma login_safe: "post_auth_login st b = Inr ob \<Longrightarrow> ''code'' \<notin> keys ob"
  by (auto simp: post_auth_login_def Let_def code_not_in_safe split: if_splits option.splits)

lemma activate_Inr:
  assumes "post_auth_activate now st b = Inr (ob, st')"
  shows "\<exists>u. ob = omit [''code'', ''_id''] (user_obj u)"
proof -
  let ?tok = "b ''inviteToken''" and ?code = "b ''code''"
  from assms have 1: "truthy ?tok" "truthy ?code" "\<not> code_malformed ?code"
    by (simp_all add: post_auth_activate_def Let_def split: if_splits)
  from assms 1 have 2: "findOne (\<lambda>u. u_code u = ?code \<and> u_isActive u) (users st) = None"
    by (simp add: post_auth_activate_def Let_def split: option.splits)
  from assms 1 2 obtain user where
    3: "findOne (\<lambda>u. u_inviteToken u = ?tok \<and> \<not> u_isActive u) (users st) = Some user"
    by (cases "findOne (\<lambda>u. u_inviteToken u = ?tok \<and> \<not> u_isActive u) (users st)")
       (simp_all add: post_auth_activate_def Let_def)
  from assms 1 2 3 have 4: "\<not> invite_expired now user"
    by (simp add: post_auth_activate_def Let_def split: if_splits)
  from assms 1 2 3 4 show ?thesis
    by (simp add: post_auth_activate_def Let_def split: option.splits) blast
qed

lemma activate_safe: "post_auth_activate now st b = Inr (ob, st') \<Longrightarrow> ''code'' \<notin> keys ob"
  using activate_Inr code_not_in_safe by blast

lemma with_admin_Inr:
  "with_admin st h f = Inr r \<Longrightarrow> \<exists>admin. authMiddleware st h = Inr admin \<and> truthy (u_isAdmin admin) \<and> f admin = Inr r"
  by (auto simp: with_admin_def with_auth_def adminOnly_def split: sum.splits if_splits)

lemma get_users_safe: "get_users st h = Inr obs \<Longrightarrow> ob \<in> set obs \<Longrightarrow> ''code'' \<notin> keys ob"
  unfolding get_users_def by (drule with_admin_Inr) (auto simp: code_not_in_safe)

lemma post_users_safe:
  "post_users now token st h b = Inr ((ob, tok), st') \<Longrightarrow> ''code'' \<notin> keys ob"
  unfolding post_users_def
  by (drule with_admin_Inr) (auto simp: Let_def code_not_in_safe split: if_splits)

lemma invite_safe: "get_auth_invite now st t = Inr ob \<Longrightarrow> ''code'' \<notin> keys ob"
  by (auto simp: get_auth_invite_def keys_def split: option.splits if_splits)

lemma findOne_None_iff: "findOne P xs = None \<longleftrightarrow> (\<forall>x\<in>set xs. \<not> P x)"
  by (auto simp: findOne_def find_None_iff)

lemma findOne_distinct:
  "distinct (map g xs) \<Longrightarrow> x \<in> set xs \<Longrightarrow> findOne (\<lambda>y. g y = g x) xs = Some x"
  by (induction xs) (auto simp: findOne_def)

lemma updateOne_distinct:
  "distinct (map g xs) \<Longrightarrow> x \<in> set xs \<Longrightarrow>
   updateOne (\<lambda>y. g y = g x) f xs = map (\<lambda>y. if y = x then f x else y) xs"
proof (induction xs)
  case Nil
  then show ?case by simp
next
  case (Cons y ys)
  show ?case
  proof (cases "g y = g x")
    case True
    then have yx: "y = x" using Cons.prems by (auto simp: image_iff)
    then have "x \<notin> set ys" using Cons.prems by (auto simp: image_iff)
    then have "map (\<lambda>z. if z = x then f x else z) ys = ys"
      by (induction ys) auto
    then show ?thesis using True yx by simp
  next
    case False
    then have "x \<in> set ys" "y \<noteq> x" using Cons.prems by auto
    then show ?thesis using False Cons by simp
  qed
qed

lemma activate_first:
  assumes tok: "b ''inviteToken'' = tokv" "truthy tokv"
    and code: "b ''code'' = code" "truthy code" "\<not> code_malformed code"
    and free: "findOne (\<lambda>u. u_code u = code \<and> u_isActive u) (users st) = None"
    and held: "findOne (\<lambda>u. u_inviteToken u = tokv \<and> \<not> u_isActive u) (users st) = Some user"
    and valid: "\<not> invite_expired now user"
    and ids: "distinct (map u_id (users st))"
  shows "post_auth_activate now st b =
      Inr (omit [''code'', ''_id''] (user_obj (activated code user)),
           st\<lparr>users := map (\<lambda>u. if u = user then activated code user else u) (users st)\<rparr>)"
proof -
  have mem: "user \<in> set (users st)" using findOne_SomeD [OF held] by simp
  let ?f = "activated code"
  have upd: "updateOne (\<lambda>u. u_id u = u_id user) ?f (users st)
      = map (\<lambda>u. if u = user then activated code user else u) (users st)"
    by (rule updateOne_distinct [OF ids mem])
  have "findOne (\<lambda>u. u_id u = u_id user) (users st) = Some user"
    by (rule findOne_distinct [OF ids mem])
  then have "findOne (\<lambda>u. u_id u = u_id user) (updateOne (\<lambda>u. u_id u = u_id user) ?f (users st))
      = Some (?f user)"
    by (rule findOne_updateOne) (simp add: activated_def)
  then have fnd: "findOne (\<lambda>u. u_id u = u_id user)
        (map (\<lambda>u. if u = user then activated code user else u) (users st))
      = Some (activated code user)"
    unfolding upd .
  show ?thesis
    unfolding post_auth_activate_def Let_def
    by (simp add: tok code free held valid upd fnd)
qed

lemma activate_second:
  assumes tok: "b' ''inviteToken'' = tokv" "truthy tokv"
    and held: "findOne (\<lambda>u. u_inviteToken u = tokv \<and> \<not> u_isActive u) (users st) = Some user"
    and single: "\<forall>u\<in>set (users st). u_inviteToken u = tokv \<and> \<not> u_isActive u \<longrightarrow> u = user"
  shows "post_auth_activate now' (st\<lparr>users := map (\<lambda>u. if u = user then activated code user else u) (users st)\<rparr>) b' =
      (if \<not> truthy (b' ''code'') then Inl (400, FillAllFields)
       else if code_malformed (b' ''code'') then Inl (400, CodeFormat)
       else if b' ''code'' = code \<or> (\<exists>u\<in>set (users st). u_code u = b' ''code'' \<and> u_isActive u)
       then Inl (400, CodeTaken)
       else Inl (404, InviteNotFound))"
proof -
  let ?us = "map (\<lambda>u. if u = user then activated code user else u) (users st)"
  have mem: "user \<in> set (users st)" and inact: "\<not> u_isActive user"
    using findOne_SomeD [OF held] by simp_all
  have tokv: "tokv \<noteq> JNull" using tok(2) by auto
  have gone: "findOne (\<lambda>u. u_inviteToken u = tokv \<and> \<not> u_isActive u) ?us = None"
    using single tokv by (auto simp: findOne_None_iff activated_def)
  have taken: "(\<exists>u\<in>set ?us. u_code u = c \<and> u_isActive u)
      \<longleftrightarrow> c = code \<or> (\<exists>u\<in>set (users st). u_code u = c \<and> u_isActive u)" for c
  proof
    assume "\<exists>u\<in>set ?us. u_code u = c \<and> u_isActive u"
    then show "c = code \<or> (\<exists>u\<in>set (users st). u_code u = c \<and> u_isActive u)"
      by (auto simp: activated_def split: if_splits)
  next
    assume "c = code \<or> (\<exists>u\<in>set (users st). u_code u = c \<and> u_isActive u)"
    then show "\<exists>u\<in>set ?us. u_code u = c \<and> u_isActive u"
    proof
      assume "c = code"
      then have "activated code user \<in> set ?us \<and> u_code (activated code user) = c
          \<and> u_isActive (activated code user)"
        using mem by (auto simp: activated_def image_iff)
      then show ?thesis by blast
    next
      assume "\<exists>u\<in>set (users st). u_code u = c \<and> u_isActive u"
      then obtain u where u: "u \<in> set (users st)" "u_code u = c" "u_isActive u" by blast
      then have "u \<noteq> user" using inact by auto
      then have "u \<in> set ?us" using u(1) by (auto simp: image_iff)
      then show ?thesis using u by blast
    qed
  qed
  show ?thesis
  proof (cases "findOne (\<lambda>u. u_code u = b' ''code'' \<and> u_isActive u) ?us")
    case None
    then have "\<not> (\<exists>u\<in>set ?us. u_code u = b' ''code'' \<and> u_isActive u)"
      unfolding findOne_None_iff by blast
    then have "\<not> (b' ''code'' = code \<or> (\<exists>u\<in>set (users st). u_code u = b' ''code'' \<and> u_isActive u))"
      unfolding taken .
    then have r: "(if \<not> truthy (b' ''code'') then Inl (400, FillAllFields)
       else if code_malformed (b' ''code'') then Inl (400, CodeFormat)
       else if b' ''code'' = code \<or> (\<exists>u\<in>set (users st). u_code u = b' ''code'' \<and> u_isActive u)
       then Inl (400, CodeTaken)
       else Inl (404, InviteNotFound))
      = (if \<not> truthy (b' ''code'') then Inl (400, FillAllFields)
       else if code_malformed (b' ''code'') then Inl (400, CodeFormat)
       else (Inl (404, InviteNotFound) :: failure + (obj \<times> store)))"
      by auto
    show ?thesis
      unfolding r by (simp add: post_auth_activate_def Let_def None gone tok)
  next
    case (Some u)
    then have "\<exists>u\<in>set ?us. u_code u = b' ''code'' \<and> u_isActive u"
      using findOne_SomeD [OF Some] by blast
    then have "b' ''code'' = code \<or> (\<exists>u\<in>set (users st). u_code u = b' ''code'' \<and> u_isActive u)"
      unfolding taken .
    then have r: "(if \<not> truthy (b' ''code'') then Inl (400, FillAllFields)
       else if code_malformed (b' ''code'') then Inl (400, CodeFormat)
       else if b' ''code'' = code \<or> (\<exists>u\<in>set (users st). u_code u = b' ''code'' \<and> u_isActive u)
       then Inl (400, CodeTaken)
       else Inl (404, InviteNotFound))
      = (if \<not> truthy (b' ''code'') then Inl (400, FillAllFields)
       else if code_malformed (b' ''code'') then Inl (400, CodeFormat)
       else (Inl (400, CodeTaken) :: failure + (obj \<times> store)))"
      by auto
    show ?thesis
      unfolding r by (simp add: post_auth_activate_def Let_def Some tok)
  qed
qed

lemma invite_facts:
  "invite_body ''inviteToken'' = JStr ''T''" "truthy (JStr ''T'')"
  "invite_body ''code'' = JStr ''4321''" "truthy (JStr ''4321'')"
  "\<not> code_malformed (JStr ''4321'')"
  "findOne (\<lambda>u. u_code u = JStr ''4321'' \<and> u_isActive u) (users invite_store) = None"
  "findOne (\<lambda>u. u_inviteToken u = JStr ''T'' \<and> \<not> u_isActive u) (users invite_store) = Some carol_user"
  "\<not> invite_expired 500 carol_user"
  "distinct (map u_id (users invite_store))"
  "\<forall>u\<in>set (users invite_store). u_inviteToken u = JStr ''T'' \<and> \<not> u_isActive u \<longrightarrow> u = carol_user"
  by (simp_all add: invite_body_def empty_body_def is_digit_def findOne_def invite_store_def
      admin_user_def carol_user_def invite_expired_def)

lemma invite_users:
  "invite_store\<lparr>users := map (\<lambda>u. if u = carol_user then activated (JStr ''4321'') carol_user else u)
      (users invite_store)\<rparr> = invite_store_used"
  by (simp add: invite_store_used_def invite_store_def admin_user_def carol_user_def)

lemma login_bob:
  "post_auth_login scenario_store (empty_body(''code'' := JStr ''1234''))
     = Inr (omit [''code'', ''_id''] (user_obj bob_user))"
  by (simp add: post_auth_login_def findOne_def scenario_store_def admin_user_def bob_user_def)

lemma scenario_users: "users scenario_store = [admin_user, bob_user]"
  by (simp add: scenario_store_def)

lemma admin_is_admin: "truthy (u_isAdmin admin_user)"
  by (simp add: admin_user_def)

lemma list_users:
  "get_users scenario_store (Some ''u_admin'')
     = Inr [omit [''code'', ''_id''] (user_obj admin_user), omit [''code'', ''_id''] (user_obj bob_user)]"
  by (simp add: get_users_def with_admin_def with_auth_Inr [OF auth_admin] adminOnly_def
      admin_is_admin scenario_users)

lemma create_dan:
  "post_users 5 ''tok'' scenario_store (Some ''u_admin'') (empty_body(''name'' := JStr ''Dan''))
     = Inr ((omit [''code'', ''_id''] (user_obj dan_user), ''tok''),
            scenario_store\<lparr>users := users scenario_store @ [dan_user]\<rparr>)"
  by (simp add: post_users_def with_admin_def with_auth_Inr [OF auth_admin] adminOnly_def
      admin_is_admin Let_def insertOne_def dan_user_def empty_body_def js_or_def dec_5)

lemma forEach_throws:
  "x \<in> set xs \<Longrightarrow> (\<And>s. f x s = None) \<Longrightarrow> forEach xs f s = None"
  by (induction xs arbitrary: s) (auto split: option.splits)

lemma addChildren_cycle:
  assumes "(p, x) \<in> (child_rel cs)\<^sup>*" and "(x, x) \<in> (child_rel cs)\<^sup>+"
  shows "addChildren depth cs p acc = None"
  using assms(1)
proof (induction depth arbitrary: p acc)
  case 0
  then show ?case by simp
next
  case (Suc depth)
  have "(p, x) \<in> (child_rel cs)\<^sup>+"
    using Suc.prems assms(2) by (rule rtrancl_trancl_trancl)
  then obtain m where m: "(p, m) \<in> child_rel cs" "(m, x) \<in> (child_rel cs)\<^sup>*"
    by (meson tranclD)
  then obtain c where c: "c \<in> set cs" "c_parent c = JStr p" "c_id c = m"
    by (auto simp: child_rel_iff)
  have "forEach (filter (\<lambda>c. c_parent c = JStr p) cs)
          (\<lambda>child acc. addChildren depth cs (c_id child) (set_add (c_id child) acc)) acc = None"
  proof (rule forEach_throws)
    show "c \<in> set (filter (\<lambda>c. c_parent c = JStr p) cs)" using c by simp
    show "addChildren depth cs (c_id c) (set_add (c_id c) s) = None" for s
      using Suc.IH [of "c_id c"] m(2) c(3) by simp
  qed
  then show ?case by simp
qed

lemma getAccessibleContainerIds_cycle:
  assumes "r \<in> set (rootAccessIds st userId)"
    and "(r, x) \<in> (child_rel (containers st))\<^sup>*"
    and "(x, x) \<in> (child_rel (containers st))\<^sup>+"
  shows "getAccessibleContainerIds depth st userId = None"
  unfolding getAccessibleContainerIds_def
  by (rule forEach_throws [OF assms(1)]) (rule addChildren_cycle [OF assms(2,3)])

lemma reparented_child_rel:
  "child_rel (containers reparented_store) = {(''c2'', ''c1''), (''c1'', ''c2'')}"
  unfolding reparented_store_def containers_step_put auth_bob
  by (simp add: child_rel_def scenario_store_def mk_container_def set_container_def
      assign_def empty_body_def)

lemma reparented_roots: "rootAccessIds reparented_store ''bob'' = [''c1'']"
proof -
  have a: "containerAccess reparented_store = containerAccess scenario_store"
    unfolding reparented_store_def
    by (simp add: after_with_auth auth_bob put_containers_def after_Inr Let_def)
  have c: "filter (\<lambda>c. c_ownerId c = Some ''bob'') (containers reparented_store) = []"
    unfolding reparented_store_def containers_step_put auth_bob
    by (simp add: scenario_store_def mk_container_def set_container_def)
  show ?thesis
    by (simp add: rootAccessIds_def ownedIds_def directAccessIds_def a c new_Set_def set_add_def
        scenario_store_def)
qed

lemma loop_addChildren: "addChildren d (containers loop_store) ''c1'' acc = None"
  by (induction d arbitrary: acc) (simp_all add: loop_store_def mk_container_def)

lemma addChildren_returns:
  assumes "\<not> (\<exists>x. (p, x) \<in> (child_rel cs)\<^sup>* \<and> (x, x) \<in> (child_rel cs)\<^sup>+)"
  shows "\<exists>k. \<forall>d\<ge>k. \<forall>acc. addChildren d cs p acc \<noteq> None"
proof -
  define good where
    "good = (\<lambda>a. \<not> (\<exists>x. (a, x) \<in> (child_rel cs)\<^sup>* \<and> (x, x) \<in> (child_rel cs)\<^sup>+))"
  define R where "R = {(a, b). (a, b) \<in> child_rel cs \<and> good a}"
  have sub: "R \<subseteq> child_rel cs" by (auto simp: R_def)
  have fin: "finite R" using sub finite_child_rel by (rule finite_subset)
  have "(x, x) \<notin> R\<^sup>+" for x
  proof
    assume c: "(x, x) \<in> R\<^sup>+"
    then have "(x, x) \<in> (child_rel cs)\<^sup>+" using trancl_mono [OF _ sub] by blast
    moreover from c obtain y where "(x, y) \<in> R" by (meson tranclD)
    then have "good x" by (simp add: R_def)
    ultimately show False unfolding good_def by blast
  qed
  then have "acyclic R" by (simp add: acyclic_def)
  with fin have wf: "wf (R\<inverse>)" by (rule finite_acyclic_wf_converse)
  have "good p \<longrightarrow> (\<exists>k. \<forall>d\<ge>k. \<forall>acc. addChildren d cs p acc \<noteq> None)"
    using wf
  proof (induction p rule: wf_induct_rule)
    case (less p)
    show ?case
    proof
      assume gp: "good p"
      let ?kids = "filter (\<lambda>c. c_parent c = JStr p) cs"
      have "\<exists>k. \<forall>d\<ge>k. \<forall>acc. addChildren d cs (c_id c) acc \<noteq> None" if "c \<in> set ?kids" for c
      proof -
        have e: "(p, c_id c) \<in> child_rel cs" using that by (auto simp: child_rel_iff)
        then have "(c_id c, p) \<in> R\<inverse>" using gp by (simp add: R_def)
        moreover have "good (c_id c)"
          using gp e unfolding good_def by (blast intro: converse_rtrancl_into_rtrancl)
        ultimately show ?thesis using less.IH by blast
      qed
      then obtain K where K: "\<forall>c\<in>set ?kids. \<forall>d\<ge>K. \<forall>acc. addChildren d cs (c_id c) acc \<noteq> None"
        using common_bound [of ?kids "\<lambda>c d. \<forall>acc. addChildren d cs (c_id c) acc \<noteq> None"] by blast
      have "addChildren d cs p acc \<noteq> None" if "d \<ge> Suc K" for d acc
      proof -
        from that obtain d' where d: "d = Suc d'" and d': "d' \<ge> K" by (cases d) auto
        show ?thesis unfolding d addChildren.simps
          by (rule forEach_total) (use K d' in auto)
      qed
      then show "\<exists>k. \<forall>d\<ge>k. \<forall>acc. addChildren d cs p acc \<noteq> None" by blast
    qed
  qed
  then show ?thesis using assms by (simp add: good_def)
qed

lemma getAccessibleContainerIds_returns:
  assumes "\<not> root_reaches_cycle st userId"
  shows "\<exists>k. \<forall>d\<ge>k. getAccessibleContainerIds d st userId \<noteq> None"
proof -
  have "\<exists>k. \<forall>d\<ge>k. \<forall>acc. addChildren d (containers st) r acc \<noteq> None"
    if "r \<in> set (rootAccessIds st userId)" for r
    by (rule addChildren_returns) (use assms that in \<open>auto simp: root_reaches_cycle_def\<close>)
  then have "\<exists>K. \<forall>r\<in>set (rootAccessIds st userId). \<forall>d\<ge>K. \<forall>acc.
      addChildren d (containers st) r acc \<noteq> None"
    by (rule common_bound)
  then obtain K where K: "\<forall>r\<in>set (rootAccessIds st userId). \<forall>d\<ge>K. \<forall>acc.
      addChildren d (containers st) r acc \<noteq> None"
    by blast
  have "getAccessibleContainerIds d st userId \<noteq> None" if "d \<ge> K" for d
    unfolding getAccessibleContainerIds_def
    by (rule forEach_total) (use K that in auto)
  then show ?thesis by blast
qed

lemma root_reaches_cycle_overflows:
  "root_reaches_cycle st userId \<Longrightarrow> getAccessibleContainerIds d st userId = None"
  unfolding root_reaches_cycle_def using getAccessibleContainerIds_cycle by blast

lemma forest_no_cycle: "forest (containers st) \<Longrightarrow> \<not> root_reaches_cycle st userId"
  by (auto simp: forest_def acyclic_def root_reaches_cycle_def)

lemma elsewhere_child_rel: "child_rel (containers elsewhere_store) = {(''c1'', ''c1'')}"
  by (simp add: child_rel_def elsewhere_store_def mk_container_def)

lemma elsewhere_not_forest: "\<not> forest (containers elsewhere_store)"
  unfolding forest_def elsewhere_child_rel by (simp add: acyclic_insert)

lemma elsewhere_roots: "rootAccessIds elsewhere_store ''bob'' = [''c2'']"
  by (simp add: rootAccessIds_def ownedIds_def directAccessIds_def new_Set_def set_add_def
      elsewhere_store_def mk_container_def)

lemma elsewhere_bob: "getAccessibleContainerIds (Suc d) elsewhere_store ''bob'' = Some [''c2'']"
  unfolding getAccessibleContainerIds_def elsewhere_roots
  by (simp add: new_Set_def set_add_def elsewhere_store_def mk_container_def)

lemma elsewhere_no_cycle: "\<not> root_reaches_cycle elsewhere_store ''bob''"
proof
  assume "root_reaches_cycle elsewhere_store ''bob''"
  then obtain x where x: "(''c2'', x) \<in> {(''c1'', ''c1'')}\<^sup>*" "(x, x) \<in> {(''c1'', ''c1'')}\<^sup>+"
    by (auto simp: root_reaches_cycle_def elsewhere_roots elsewhere_child_rel)
  from x(1) have "x = ''c2''" by (cases rule: converse_rtranclE) auto
  with x(2) show False by (auto dest: tranclD)
qed

lemma scenario_no_cycle: "\<not> root_reaches_cycle scenario_store ''bob''"
  by (rule forest_no_cycle [OF scenario_forest])

lemma reparented_cycle: "root_reaches_cycle reparented_store ''bob''"
proof -
  have "(''c1'', ''c2'') \<in> child_rel (containers reparented_store)"
    and "(''c2'', ''c1'') \<in> child_rel (containers reparented_store)"
    by (simp_all add: reparented_child_rel)
  then have "(''c1'', ''c1'') \<in> (child_rel (containers reparented_store))\<^sup>+"
    by (rule trancl_into_trancl [OF r_into_trancl])
  moreover have "''c1'' \<in> set (rootAccessIds reparented_store ''bob'')"
    by (simp add: reparented_roots)
  ultimately show ?thesis unfolding root_reaches_cycle_def by blast
qed

section \<open>The access resolver computes the owned, granted and nested containers\<close>

text \<open>
  On a table with a cycle of parent links below one of the user's containers the
  function returns no set at all, although the set of owned, granted and nested
  containers is well defined: here it is \<open>{c1}\<close>.
\<close>

theorem no_set_returned_on_cycle:
  "accessibleContainers_spec loop_store ''bob'' = {''c1''}
   \<and> (\<forall>depth. getAccessibleContainerIds depth loop_store ''bob'' = None)"
proof (intro conjI allI)
  have rel: "child_rel (containers loop_store) = {(''c1'', ''c1'')}"
    by (simp add: child_rel_def loop_store_def mk_container_def)
  have "descendants (containers loop_store) ''c1'' \<subseteq> Range ((child_rel (containers loop_store))\<^sup>+)"
    unfolding descendants_def by blast
  then have "descendants (containers loop_store) ''c1'' \<subseteq> {''c1''}"
    unfolding trancl_range rel by simp
  then show "accessibleContainers_spec loop_store ''bob'' = {''c1''}"
    by (auto simp: accessibleContainers_spec_def Let_def loop_store_def mk_container_def)
next
  fix depth
  have "rootAccessIds loop_store ''bob'' = [''c1'']"
    by (simp add: rootAccessIds_def ownedIds_def directAccessIds_def new_Set_def set_add_def
        loop_store_def mk_container_def)
  then show "getAccessibleContainerIds depth loop_store ''bob'' = None"
    using loop_addChildren [of depth] by (simp add: getAccessibleContainerIds_def)
qed

text \<open>
  Claim C1, as the code has it.  For a regular user, whatever
  \<^verbatim>\<open>getAccessibleContainerIds\<close> returns is exactly the set of the ids of the containers
  the user owns, the ids named by the user's ContainerAccess rows, and the ids of all
  their descendants along the parent links, and nothing else.  Given a call stack deep
  enough for the nesting, it returns that set on exactly the tables on which no cycle of
  parent links lies at or below one of the user's root containers: a cycle elsewhere in
  the table does no harm, and with a cycle at or below a root no set is returned.
\<close>

theorem getAccessibleContainerIds_exact:
  "(\<forall>s. getAccessibleContainerIds depth st userId = Some s \<longrightarrow>
          set s = accessibleContainers_spec st userId)
   \<and> ((\<exists>k. \<forall>d\<ge>k. \<exists>s. getAccessibleContainerIds d st userId = Some s
                        \<and> set s = accessibleContainers_spec st userId)
        \<longleftrightarrow> \<not> root_reaches_cycle st userId)"
proof (intro conjI allI impI iffI)
  fix s assume "getAccessibleContainerIds depth st userId = Some s"
  then show "set s = accessibleContainers_spec st userId"
    by (rule getAccessibleContainerIds_sound)
next
  assume "\<exists>k. \<forall>d\<ge>k. \<exists>s. getAccessibleContainerIds d st userId = Some s
                        \<and> set s = accessibleContainers_spec st userId"
  then obtain k s where "getAccessibleContainerIds k st userId = Some s" by blast
  then show "\<not> root_reaches_cycle st userId"
    using root_reaches_cycle_overflows [of st userId k] by auto
next
  assume "\<not> root_reaches_cycle st userId"
  then obtain k where "\<forall>d\<ge>k. getAccessibleContainerIds d st userId \<noteq> None"
    using getAccessibleContainerIds_returns by blast
  then have "\<forall>d\<ge>k. \<exists>s. getAccessibleContainerIds d st userId = Some s
                        \<and> set s = accessibleContainers_spec st userId"
    using getAccessibleContainerIds_sound by fastforce
  then show "\<exists>k. \<forall>d\<ge>k. \<exists>s. getAccessibleContainerIds d st userId = Some s
                        \<and> set s = accessibleContainers_spec st userId" ..
qed

theorem getAccessibleContainerIds_exact_witness:
  "\<not> root_reaches_cycle scenario_store ''bob''
   \<and> getAccessibleContainerIds 2 scenario_store ''bob'' = Some [''c1'', ''c2'']
   \<and> accessibleContainers_spec scenario_store ''bob'' = {''c1'', ''c2''}
   \<and> (\<exists>k. \<forall>d\<ge>k. \<exists>s. getAccessibleContainerIds d scenario_store ''bob'' = Some s
                        \<and> set s = {''c1'', ''c2''})
   \<and> \<not> forest (containers elsewhere_store)
   \<and> \<not> root_reaches_cycle elsewhere_store ''bob''
   \<and> (\<forall>d. getAccessibleContainerIds (Suc d) elsewhere_store ''bob'' = Some [''c2''])
   \<and> accessibleContainers_spec elsewhere_store ''bob'' = {''c2''}"
proof -
  note a = getAccessibleContainerIds_exact [of 2 scenario_store "''bob''"]
  note b = getAccessibleContainerIds_exact [of "Suc 0" elsewhere_store "''bob''"]
  have spec: "accessibleContainers_spec scenario_store ''bob'' = {''c1'', ''c2''}"
    using a [THEN conjunct1, rule_format, OF scenario_bob] by simp
  have ex: "\<exists>k. \<forall>d\<ge>k. \<exists>s. getAccessibleContainerIds d scenario_store ''bob'' = Some s
                        \<and> set s = {''c1'', ''c2''}"
    using a [THEN conjunct2, THEN iffD2, OF scenario_no_cycle] unfolding spec .
  have spec2: "accessibleContainers_spec elsewhere_store ''bob'' = {''c2''}"
    using b [THEN conjunct1, rule_format, OF elsewhere_bob] by simp
  have run: "\<forall>d. getAccessibleContainerIds (Suc d) elsewhere_store ''bob'' = Some [''c2'']"
    using elsewhere_bob by blast
  show ?thesis
    by (intro conjI)
       (rule scenario_no_cycle, rule scenario_bob, rule spec, rule ex, rule elsewhere_not_forest,
        rule elsewhere_no_cycle, rule run, rule spec2)
qed

section \<open>Termination of the traversal\<close>

text \<open>
  On a table whose parent links form a cycle the traversal does not end: \<open>addChildren\<close>
  keeps no visited ids, so it follows the cycle until the call stack is exhausted,
  whatever its depth.
\<close>

theorem cyclic_table_overflows:
  "\<forall>depth. getAccessibleContainerIds depth cyclic_store ''bob'' = None"
proof
  fix depth
  have "rootAccessIds cyclic_store ''bob'' = [''c1'', ''c2'']"
    by (simp add: resolver_defs example_defs)
  then show "getAccessibleContainerIds depth cyclic_store ''bob'' = None"
    using cyclic_addChildren [of depth] by (simp add: getAccessibleContainerIds_def)
qed

text \<open>
  Claim C2, as the code has it.  \<^verbatim>\<open>getAccessibleContainerIds\<close> tracks no visited ids.
  It returns, given a call stack deep enough for the nesting, on every finite container
  table in which no cycle of parent links lies at or below one of the user's root
  containers: on every acyclic table, and also on a table that is cyclic elsewhere.
  When a cycle lies at or below a root, the call exhausts the stack at every depth.
\<close>

theorem getAccessibleContainerIds_returns_unless_cycle:
  "(\<not> root_reaches_cycle st userId \<longrightarrow>
      (\<exists>k. \<forall>d\<ge>k. \<exists>s. getAccessibleContainerIds d st userId = Some s))
   \<and> (root_reaches_cycle st userId \<longrightarrow> (\<forall>d. getAccessibleContainerIds d st userId = None))
   \<and> (forest (containers st) \<longrightarrow> \<not> root_reaches_cycle st userId)"
proof (intro conjI impI allI)
  assume "\<not> root_reaches_cycle st userId"
  then show "\<exists>k. \<forall>d\<ge>k. \<exists>s. getAccessibleContainerIds d st userId = Some s"
    using getAccessibleContainerIds_returns [of st userId] by auto
next
  fix d
  assume "root_reaches_cycle st userId"
  then show "getAccessibleContainerIds d st userId = None"
    by (rule root_reaches_cycle_overflows)
next
  assume "forest (containers st)"
  then show "\<not> root_reaches_cycle st userId" by (rule forest_no_cycle)
qed

theorem getAccessibleContainerIds_returns_unless_cycle_witness:
  "\<not> forest (containers elsewhere_store)
   \<and> \<not> root_reaches_cycle elsewhere_store ''bob''
   \<and> (\<exists>k. \<forall>d\<ge>k. \<exists>s. getAccessibleContainerIds d elsewhere_store ''bob'' = Some s)
   \<and> root_reaches_cycle reparented_store ''bob''
   \<and> (\<forall>d. getAccessibleContainerIds d reparented_store ''bob'' = None)
   \<and> forest (containers scenario_store)
   \<and> \<not> root_reaches_cycle scenario_store ''u_admin''"
proof -
  note a = getAccessibleContainerIds_returns_unless_cycle [of elsewhere_store "''bob''"]
  note b = getAccessibleContainerIds_returns_unless_cycle [of reparented_store "''bob''"]
  note c = getAccessibleContainerIds_returns_unless_cycle [of scenario_store "''u_admin''"]
  have 1: "\<exists>k. \<forall>d\<ge>k. \<exists>s. getAccessibleContainerIds d elsewhere_store ''bob'' = Some s"
    by (rule a [THEN conjunct1, rule_format, OF elsewhere_no_cycle])
  have 2: "\<forall>d. getAccessibleContainerIds d reparented_store ''bob'' = None"
    by (rule b [THEN conjunct2, THEN conjunct1, rule_format, OF reparented_cycle, THEN allI])
  have 3: "\<not> root_reaches_cycle scenario_store ''u_admin''"
    by (rule c [THEN conjunct2, THEN conjunct2, rule_format, OF scenario_forest])
  show ?thesis
    by (intro conjI)
       (rule elsewhere_not_forest, rule elsewhere_no_cycle, rule 1, rule reparented_cycle, rule 2,
        rule scenario_forest, rule 3)
qed

section \<open>Sync\<close>

text \<open>
  An access row may name a container that is no longer stored.  Its id is then in the
  accessible set, yet \<^verbatim>\<open>GET /sync\<close> returns no item of it: the handler filters the items
  by the ids of the containers it returns, not by the accessible set.
\<close>

theorem sync_drops_item_of_missing_container:
  "getAccessibleContainerIds 1 orphan_store ''bob'' = Some [''c9'']
   \<and> items orphan_store = [mk_item ''i1'' ''c9'']
   \<and> i_container (mk_item ''i1'' ''c9'') = JStr ''c9''
   \<and> get_sync 1 orphan_store (Some ''bob'') =
       Inr \<lparr>r_containers = [], r_items = [], r_categories = []\<rparr>"
  by (simp add: get_sync_def with_auth_def authMiddleware_def findOne_def sorted_categories_def
      resolver_defs example_defs)

text \<open>
  Claim C4, as the code has it.  For an authenticated admin, sync returns every
  container, every item and every category, the categories in ascending \<^verbatim>\<open>order\<close>.  For
  an authenticated regular user for whom the access resolver returns, sync returns
  exactly the containers whose id is in the accessible set, exactly the items whose
  container field is the id of one of those returned containers, and every category in
  ascending \<^verbatim>\<open>order\<close>; when the resolver exhausts the call stack, sync answers 500.
\<close>

theorem get_sync_result:
  assumes "authMiddleware st x_user_id = Inr user"
  shows "(truthy (u_isAdmin user) \<longrightarrow>
            get_sync depth st x_user_id =
              Inr \<lparr>r_containers = containers st, r_items = items st,
                   r_categories = sorted_categories st\<rparr>)
       \<and> (\<not> truthy (u_isAdmin user) \<longrightarrow>
            (\<forall>ids. getAccessibleContainerIds depth st (u_id user) = Some ids \<longrightarrow>
               set ids = accessibleContainers_spec st (u_id user)
               \<and> get_sync depth st x_user_id =
                 Inr \<lparr>r_containers =
                        filter (\<lambda>c. c_id c \<in> accessibleContainers_spec st (u_id user)) (containers st),
                      r_items =
                        filter (\<lambda>i. \<exists>c\<in>set (containers st).
                                  c_id c \<in> accessibleContainers_spec st (u_id user)
                                  \<and> i_container i = JStr (c_id c)) (items st),
                      r_categories = sorted_categories st\<rparr>)
            \<and> (getAccessibleContainerIds depth st (u_id user) = None \<longrightarrow>
                 get_sync depth st x_user_id = Inl (500, CallStackExceeded)))
       \<and> sorted (map cat_order (sorted_categories st))
       \<and> mset (sorted_categories st) = mset (categories st)"
proof (intro conjI impI allI)
  assume "truthy (u_isAdmin user)"
  then show "get_sync depth st x_user_id =
      Inr \<lparr>r_containers = containers st, r_items = items st, r_categories = sorted_categories st\<rparr>"
    using assms by (simp add: get_sync_def with_auth_Inr)
next
  fix ids
  assume na: "\<not> truthy (u_isAdmin user)"
    and ids: "getAccessibleContainerIds depth st (u_id user) = Some ids"
  show eq: "set ids = accessibleContainers_spec st (u_id user)"
    using ids by (rule getAccessibleContainerIds_sound)
  have "get_sync depth st x_user_id =
      Inr \<lparr>r_containers = filter (\<lambda>c. c_id c \<in> set ids) (containers st),
           r_items = filter (\<lambda>i. \<exists>c\<in>set (containers st). c_id c \<in> set ids
                                  \<and> i_container i = JStr (c_id c)) (items st),
           r_categories = sorted_categories st\<rparr>"
    using assms na ids sync_items_filter [of ids "containers st" "items st"]
    by (simp add: get_sync_def with_auth_Inr Let_def set_has_def)
  then show "get_sync depth st x_user_id =
      Inr \<lparr>r_containers =
             filter (\<lambda>c. c_id c \<in> accessibleContainers_spec st (u_id user)) (containers st),
           r_items =
             filter (\<lambda>i. \<exists>c\<in>set (containers st).
                       c_id c \<in> accessibleContainers_spec st (u_id user)
                       \<and> i_container i = JStr (c_id c)) (items st),
           r_categories = sorted_categories st\<rparr>"
    unfolding eq .
next
  assume "\<not> truthy (u_isAdmin user)" "getAccessibleContainerIds depth st (u_id user) = None"
  then show "get_sync depth st x_user_id = Inl (500, CallStackExceeded)"
    using assms by (simp add: get_sync_def with_auth_Inr)
next
  show "sorted (map cat_order (sorted_categories st))"
    by (simp add: sorted_categories_def)
  show "mset (sorted_categories st) = mset (categories st)"
    by (simp add: sorted_categories_def)
qed

theorem get_sync_result_witness:
  "authMiddleware scenario_store (Some ''bob'') = Inr bob_user
   \<and> \<not> truthy (u_isAdmin bob_user)
   \<and> getAccessibleContainerIds 2 scenario_store (u_id bob_user) = Some [''c1'', ''c2'']
   \<and> get_sync 2 scenario_store (Some ''bob'') =
       Inr \<lparr>r_containers = [mk_container ''c1'' JNull (Some ''u_admin''),
                             mk_container ''c2'' (JStr ''c1'') (Some ''u_admin'')],
            r_items = [mk_item ''i1'' ''c2''],
            r_categories = rev (categories scenario_store)\<rparr>
   \<and> authMiddleware scenario_store (Some ''u_admin'') = Inr admin_user
   \<and> truthy (u_isAdmin admin_user)
   \<and> get_sync 2 scenario_store (Some ''u_admin'') =
       Inr \<lparr>r_containers = containers scenario_store, r_items = items scenario_store,
            r_categories = rev (categories scenario_store)\<rparr>"
proof -
  have run: "getAccessibleContainerIds 2 scenario_store (u_id bob_user) = Some [''c1'', ''c2'']"
    using scenario_bob by (simp add: bob_user_def)
  have na: "\<not> truthy (u_isAdmin bob_user)" by (simp add: bob_user_def)
  have ad: "truthy (u_isAdmin admin_user)" by (simp add: admin_user_def)
  note bob = get_sync_result [OF auth_bob, of 2]
  note adm = get_sync_result [OF auth_admin, of 2]
  have spec: "accessibleContainers_spec scenario_store (u_id bob_user) = {''c1'', ''c2''}"
    using bob na run by auto
  have "get_sync 2 scenario_store (Some ''bob'') =
       Inr \<lparr>r_containers = [mk_container ''c1'' JNull (Some ''u_admin''),
                             mk_container ''c2'' (JStr ''c1'') (Some ''u_admin'')],
            r_items = [mk_item ''i1'' ''c2''],
            r_categories = rev (categories scenario_store)\<rparr>"
    using bob na run unfolding spec scenario_sorted
    by (simp add: scenario_store_def mk_container_def mk_item_def)
  moreover have "get_sync 2 scenario_store (Some ''u_admin'') =
       Inr \<lparr>r_containers = containers scenario_store, r_items = items scenario_store,
            r_categories = rev (categories scenario_store)\<rparr>"
    using adm ad unfolding scenario_sorted by simp
  ultimately show ?thesis using auth_bob auth_admin na ad run by simp
qed

section \<open>The item listing is not access-scoped\<close>

text \<open>
  Claim C10.  For every authenticated user, admin or not, \<^verbatim>\<open>GET /items\<close> returns every
  item of the store, unfiltered: a regular user also receives the items of containers
  that sync hides from them.
\<close>

theorem get_items_unfiltered:
  "authMiddleware st x_user_id = Inr user \<Longrightarrow> get_items st x_user_id = Inr (items st)"
  by (simp add: get_items_def with_auth_Inr)

theorem get_items_unfiltered_witness:
  "authMiddleware scenario_store (Some ''bob'') = Inr bob_user
   \<and> \<not> truthy (u_isAdmin bob_user)
   \<and> get_items scenario_store (Some ''bob'') = Inr [mk_item ''i1'' ''c2'', mk_item ''i2'' ''c3'']
   \<and> get_sync 2 scenario_store (Some ''bob'') =
       Inr \<lparr>r_containers = [mk_container ''c1'' JNull (Some ''u_admin''),
                             mk_container ''c2'' (JStr ''c1'') (Some ''u_admin'')],
            r_items = [mk_item ''i1'' ''c2''],
            r_categories = rev (categories scenario_store)\<rparr>"
proof -
  have "get_items scenario_store (Some ''bob'') = Inr [mk_item ''i1'' ''c2'', mk_item ''i2'' ''c3'']"
    using get_items_unfiltered [OF auth_bob] by (simp add: scenario_store_def)
  moreover have "\<not> truthy (u_isAdmin bob_user)" by (simp add: bob_user_def)
  ultimately show ?thesis using auth_bob scenario_sync_bob by simp
qed

section \<open>Deleting a container\<close>

text \<open>
  Claim C5.  Deleting container \<open>pid\<close> fails, leaving the store unchanged, whenever some
  container has parent \<open>pid\<close> (status 400, "Container has nested containers") or some item
  has container \<open>pid\<close> (status 400, "Container has items"): these two responses are the
  handler's conflict.  Otherwise the delete succeeds, removes the container and removes
  every ContainerAccess row whose containerId is \<open>pid\<close>.  The older server variant makes
  the same two checks and the same removal; it has no ContainerAccess rows.
\<close>

theorem delete_containers_conflict_or_cascade:
  assumes "authMiddleware st x_user_id = Inr user"
  shows "((\<exists>c\<in>set (containers st). c_parent c = JStr pid) \<longrightarrow>
            delete_containers st x_user_id pid = Inl (400, HasNestedContainers)
            \<and> step now token st (DeleteContainers x_user_id pid) = st)
       \<and> (\<not> (\<exists>c\<in>set (containers st). c_parent c = JStr pid)
            \<and> (\<exists>i\<in>set (items st). i_container i = JStr pid) \<longrightarrow>
            delete_containers st x_user_id pid = Inl (400, HasItems)
            \<and> step now token st (DeleteContainers x_user_id pid) = st)
       \<and> (\<not> (\<exists>c\<in>set (containers st). c_parent c = JStr pid)
            \<and> \<not> (\<exists>i\<in>set (items st). i_container i = JStr pid) \<longrightarrow>
            delete_containers st x_user_id pid =
              Inr ((), st\<lparr>containers := deleteOne (\<lambda>c. c_id c = pid) (containers st),
                          containerAccess := filter (\<lambda>a. a_containerId a \<noteq> pid) (containerAccess st)\<rparr>)
            \<and> (\<forall>a\<in>set (containerAccess (step now token st (DeleteContainers x_user_id pid))).
                  a_containerId a \<noteq> pid)
            \<and> (distinct (map c_id (containers st)) \<longrightarrow>
                  pid \<notin> c_id ` set (containers (step now token st (DeleteContainers x_user_id pid)))))
       \<and> ((\<exists>c\<in>set (v1_containers st1). c_parent c = JStr pid) \<longrightarrow>
            delete_containers_v1 st1 pid = Inl (400, HasNestedContainers))
       \<and> (\<not> (\<exists>c\<in>set (v1_containers st1). c_parent c = JStr pid)
            \<and> (\<exists>i\<in>set (v1_items st1). i_container i = JStr pid) \<longrightarrow>
            delete_containers_v1 st1 pid = Inl (400, HasItems))
       \<and> (\<not> (\<exists>c\<in>set (v1_containers st1). c_parent c = JStr pid)
            \<and> \<not> (\<exists>i\<in>set (v1_items st1). i_container i = JStr pid) \<longrightarrow>
            delete_containers_v1 st1 pid =
              Inr ((), st1\<lparr>v1_containers := deleteOne (\<lambda>c. c_id c = pid) (v1_containers st1)\<rparr>))"
proof -
  have d: "delete_containers st x_user_id pid =
     (if \<exists>c\<in>set (containers st). c_parent c = JStr pid then Inl (400, HasNestedContainers)
      else if \<exists>i\<in>set (items st). i_container i = JStr pid then Inl (400, HasItems)
      else Inr ((), st\<lparr>containers := deleteOne (\<lambda>c. c_id c = pid) (containers st),
                        containerAccess := filter (\<lambda>a. a_containerId a \<noteq> pid) (containerAccess st)\<rparr>))"
    using assms by (simp add: delete_containers_def with_auth_Inr countDocuments_pos deleteMany_def)
  have d1: "delete_containers_v1 st1 pid =
     (if \<exists>c\<in>set (v1_containers st1). c_parent c = JStr pid then Inl (400, HasNestedContainers)
      else if \<exists>i\<in>set (v1_items st1). i_container i = JStr pid then Inl (400, HasItems)
      else Inr ((), st1\<lparr>v1_containers := deleteOne (\<lambda>c. c_id c = pid) (v1_containers st1)\<rparr>))"
    by (simp add: delete_containers_v1_def countDocuments_pos)
  show ?thesis
    unfolding step.simps d d1
    by (simp add: after_def deleteOne_distinct)
qed

theorem delete_containers_conflict_or_cascade_witness:
  "authMiddleware scenario_store (Some ''bob'') = Inr bob_user
   \<and> delete_containers scenario_store (Some ''bob'') ''c1'' = Inl (400, HasNestedContainers)
   \<and> delete_containers scenario_store (Some ''bob'') ''c3'' = Inl (400, HasItems)
   \<and> step 0 [] scenario_store (DeleteContainers (Some ''bob'') ''c3'') = scenario_store
   \<and> delete_containers shared_store (Some ''bob'') ''c1'' =
       Inr ((), shared_store\<lparr>containers := [], containerAccess := []\<rparr>)
   \<and> delete_containers_v1 v1_example ''c1'' = Inl (400, HasNestedContainers)
   \<and> delete_containers_v1 v1_example ''c3'' = Inl (400, HasItems)
   \<and> delete_containers_v1 v1_example ''c4'' =
       Inr ((), v1_example\<lparr>v1_containers := [mk_container ''c1'' JNull None,
              mk_container ''c2'' (JStr ''c1'') None, mk_container ''c3'' JNull None]\<rparr>)"
proof -
  note a = delete_containers_conflict_or_cascade [OF auth_bob, of "''c1''" 0 "[]" v1_example]
  note b = delete_containers_conflict_or_cascade [OF auth_bob, of "''c3''" 0 "[]" v1_example]
  note c = delete_containers_conflict_or_cascade [OF auth_bob_shared, of "''c1''" 0 "[]" v1_example]
  note d = delete_containers_conflict_or_cascade [OF auth_bob, of "''c4''" 0 "[]" v1_example]
  have a1: "\<exists>c\<in>set (containers scenario_store). c_parent c = JStr ''c1''"
    and a2: "\<exists>c\<in>set (v1_containers v1_example). c_parent c = JStr ''c1''"
    and b1: "\<not> (\<exists>c\<in>set (containers scenario_store). c_parent c = JStr ''c3'')"
    and b2: "\<exists>i\<in>set (items scenario_store). i_container i = JStr ''c3''"
    and b3: "\<not> (\<exists>c\<in>set (v1_containers v1_example). c_parent c = JStr ''c3'')"
    and b4: "\<exists>i\<in>set (v1_items v1_example). i_container i = JStr ''c3''"
    and c1: "\<not> (\<exists>c\<in>set (containers shared_store). c_parent c = JStr ''c1'')"
    and c2: "\<not> (\<exists>i\<in>set (items shared_store). i_container i = JStr ''c1'')"
    and d1: "\<not> (\<exists>c\<in>set (v1_containers v1_example). c_parent c = JStr ''c4'')"
    and d2: "\<not> (\<exists>i\<in>set (v1_items v1_example). i_container i = JStr ''c4'')"
    by (simp_all add: example_defs)
  have e1: "deleteOne (\<lambda>c. c_id c = ''c1'') (containers shared_store) = []"
    and e2: "filter (\<lambda>a. a_containerId a \<noteq> ''c1'') (containerAccess shared_store) = []"
    and e3: "deleteOne (\<lambda>c. c_id c = ''c4'') (v1_containers v1_example) =
       [mk_container ''c1'' JNull None, mk_container ''c2'' (JStr ''c1'') None,
        mk_container ''c3'' JNull None]"
    by (simp_all add: example_defs)
  have 1: "delete_containers scenario_store (Some ''bob'') ''c1'' = Inl (400, HasNestedContainers)"
    and 2: "delete_containers_v1 v1_example ''c1'' = Inl (400, HasNestedContainers)"
    using a a1 a2 by blast+
  have 3: "delete_containers scenario_store (Some ''bob'') ''c3'' = Inl (400, HasItems)"
    and 4: "step 0 [] scenario_store (DeleteContainers (Some ''bob'') ''c3'') = scenario_store"
    and 5: "delete_containers_v1 v1_example ''c3'' = Inl (400, HasItems)"
    using b b1 b2 b3 b4 by blast+
  have 6: "delete_containers shared_store (Some ''bob'') ''c1'' =
       Inr ((), shared_store\<lparr>containers := [], containerAccess := []\<rparr>)"
    using c c1 c2 unfolding e1 e2 by blast
  have 7: "delete_containers_v1 v1_example ''c4'' =
       Inr ((), v1_example\<lparr>v1_containers := [mk_container ''c1'' JNull None,
              mk_container ''c2'' (JStr ''c1'') None, mk_container ''c3'' JNull None]\<rparr>)"
    using d d1 d2 unfolding e3 by blast
  show ?thesis using auth_bob 1 2 3 4 5 6 7 by simp
qed

section \<open>Partial updates\<close>

text \<open>
  A \<^verbatim>\<open>PUT\<close> for an id that no document carries does not fail: the store is left as it
  was and the handler answers with success and the body \<^verbatim>\<open>null\<close>.
\<close>

theorem put_of_missing_id_succeeds:
  "put_items scenario_store (Some ''bob'') ''i9'' (empty_body(''name'' := JStr ''x''))
     = Inr (None, scenario_store)
   \<and> put_containers scenario_store (Some ''bob'') ''c9'' (empty_body(''name'' := JStr ''x''))
     = Inr (None, scenario_store)"
proof -
  have "findOne (\<lambda>i. i_id i = ''i9'') (items scenario_store) = None"
    and "findOne (\<lambda>c. c_id c = ''c9'') (containers scenario_store) = None"
    by (simp_all add: findOne_def example_defs)
  then show ?thesis
    by (simp add: put_items_eq [OF auth_bob] put_containers_eq [OF auth_bob])
qed

text \<open>
  Claim C7, as the code has it.  For containers, items and categories (and for the items
  of the older variant), an update of the document with the given id applies exactly the
  keys present in the body among those the handler reads: an absent key leaves the field
  unchanged, a key whose value is \<^verbatim>\<open>null\<close> sets the field to \<^verbatim>\<open>null\<close>.  Only the first
  document with that id changes, all other documents and collections stay as they were,
  and the new full document is returned.  When no document has the id, nothing changes
  and the handler returns \<^verbatim>\<open>null\<close> with success, not a NotFound failure.
\<close>

theorem put_applies_present_keys:
  assumes "authMiddleware st x_user_id = Inr user"
  shows
   "(\<forall>c. findOne (\<lambda>x. c_id x = pid) (containers st) = Some c \<longrightarrow>
     put_containers st x_user_id pid b =
       Inr (Some (set_container b c),
            st\<lparr>containers := updateOne (\<lambda>x. c_id x = pid) (set_container b) (containers st)\<rparr>)
     \<and> (\<exists>n<length (containers st). containers st ! n = c
           \<and> updateOne (\<lambda>x. c_id x = pid) (set_container b) (containers st)
               = (containers st)[n := set_container b c])
     \<and> c_name (set_container b c) = (if b ''name'' = JUndefined then c_name c else b ''name'')
     \<and> c_number (set_container b c) = (if b ''number'' = JUndefined then c_number c else b ''number'')
     \<and> c_photo (set_container b c) = (if b ''photo'' = JUndefined then c_photo c else b ''photo'')
     \<and> c_parent (set_container b c) = (if b ''parent'' = JUndefined then c_parent c else b ''parent'')
     \<and> c_id (set_container b c) = c_id c
     \<and> c_ownerId (set_container b c) = c_ownerId c
     \<and> c_created (set_container b c) = c_created c)
   \<and> (findOne (\<lambda>x. c_id x = pid) (containers st) = None \<longrightarrow>
        put_containers st x_user_id pid b = Inr (None, st))
   \<and> (\<forall>i. findOne (\<lambda>x. i_id x = pid) (items st) = Some i \<longrightarrow>
     put_items st x_user_id pid b =
       Inr (Some (set_item b i),
            st\<lparr>items := updateOne (\<lambda>x. i_id x = pid) (set_item b) (items st)\<rparr>)
     \<and> (\<exists>n<length (items st). items st ! n = i
           \<and> updateOne (\<lambda>x. i_id x = pid) (set_item b) (items st)
               = (items st)[n := set_item b i])
     \<and> i_name (set_item b i) = (if b ''name'' = JUndefined then i_name i else b ''name'')
     \<and> i_quantity (set_item b i) = (if b ''quantity'' = JUndefined then i_quantity i else b ''quantity'')
     \<and> i_minQuantity (set_item b i) = (if b ''minQuantity'' = JUndefined then i_minQuantity i else b ''minQuantity'')
     \<and> i_category (set_item b i) = (if b ''category'' = JUndefined then i_category i else b ''category'')
     \<and> i_photo (set_item b i) = (if b ''photo'' = JUndefined then i_photo i else b ''photo'')
     \<and> i_container (set_item b i) = (if b ''container'' = JUndefined then i_container i else b ''container'')
     \<and> i_id (set_item b i) = i_id i
     \<and> i_created (set_item b i) = i_created i)
   \<and> (findOne (\<lambda>x. i_id x = pid) (items st) = None \<longrightarrow>
        put_items st x_user_id pid b = Inr (None, st))
   \<and> (\<forall>g. findOne (\<lambda>x. cat_id x = pid) (categories st) = Some g \<longrightarrow>
     put_categories st x_user_id pid b =
       Inr (Some (set_category b g),
            st\<lparr>categories := updateOne (\<lambda>x. cat_id x = pid) (set_category b) (categories st)\<rparr>)
     \<and> (\<exists>n<length (categories st). categories st ! n = g
           \<and> updateOne (\<lambda>x. cat_id x = pid) (set_category b) (categories st)
               = (categories st)[n := set_category b g])
     \<and> cat_name (set_category b g) = (if b ''name'' = JUndefined then cat_name g else b ''name'')
     \<and> cat_icon (set_category b g) = (if b ''icon'' = JUndefined then cat_icon g else b ''icon'')
     \<and> cat_id (set_category b g) = cat_id g
     \<and> cat_order (set_category b g) = cat_order g)
   \<and> (findOne (\<lambda>x. cat_id x = pid) (categories st) = None \<longrightarrow>
        put_categories st x_user_id pid b = Inr (None, st))
   \<and> (\<forall>j. findOne (\<lambda>x. i_id x = pid) (v1_items st1) = Some j \<longrightarrow>
     put_items_v1 st1 pid b =
       Inr (Some (set_item_v1 b j),
            st1\<lparr>v1_items := updateOne (\<lambda>x. i_id x = pid) (set_item_v1 b) (v1_items st1)\<rparr>)
     \<and> (\<exists>n<length (v1_items st1). v1_items st1 ! n = j
           \<and> updateOne (\<lambda>x. i_id x = pid) (set_item_v1 b) (v1_items st1)
               = (v1_items st1)[n := set_item_v1 b j])
     \<and> i_name (set_item_v1 b j) = (if b ''name'' = JUndefined then i_name j else b ''name'')
     \<and> i_quantity (set_item_v1 b j) = (if b ''quantity'' = JUndefined then i_quantity j else b ''quantity'')
     \<and> i_category (set_item_v1 b j) = (if b ''category'' = JUndefined then i_category j else b ''category'')
     \<and> i_photo (set_item_v1 b j) = (if b ''photo'' = JUndefined then i_photo j else b ''photo'')
     \<and> i_container (set_item_v1 b j) = (if b ''container'' = JUndefined then i_container j else b ''container'')
     \<and> i_id (set_item_v1 b j) = i_id j
     \<and> i_minQuantity (set_item_v1 b j) = i_minQuantity j
     \<and> i_created (set_item_v1 b j) = i_created j)
   \<and> (findOne (\<lambda>x. i_id x = pid) (v1_items st1) = None \<longrightarrow>
        put_items_v1 st1 pid b = Inr (None, st1))"
  by (intro conjI) (rule put_containers_found [OF assms], rule put_containers_missing [OF assms], rule put_items_found [OF assms], rule put_items_missing [OF assms], rule put_categories_found [OF assms], rule put_categories_missing [OF assms], rule put_items_v1_found, rule put_items_v1_missing)

theorem put_applies_present_keys_witness:
  "authMiddleware scenario_store (Some ''bob'') = Inr bob_user
   \<and> put_containers scenario_store (Some ''bob'') ''c2''
        (empty_body(''name'' := JStr ''Box'', ''parent'' := JNull))
      = Inr (Some (mk_container ''c2'' JNull (Some ''u_admin'')\<lparr>c_name := JStr ''Box''\<rparr>),
             scenario_store\<lparr>containers :=
               [mk_container ''c1'' JNull (Some ''u_admin''),
                mk_container ''c2'' JNull (Some ''u_admin'')\<lparr>c_name := JStr ''Box''\<rparr>,
                mk_container ''c3'' JNull (Some ''u_admin'')]\<rparr>)
   \<and> put_items scenario_store (Some ''bob'') ''i9'' (empty_body(''name'' := JStr ''x''))
      = Inr (None, scenario_store)
   \<and> put_categories scenario_store (Some ''bob'') ''cat9'' (empty_body(''name'' := JStr ''x''))
      = Inr (None, scenario_store)
   \<and> put_items_v1 v1_example ''i1'' (empty_body(''quantity'' := JNum 7))
      = Inr (Some (mk_item ''i1'' ''c3''\<lparr>i_quantity := JNum 7\<rparr>),
             v1_example\<lparr>v1_items := [mk_item ''i1'' ''c3''\<lparr>i_quantity := JNum 7\<rparr>]\<rparr>)"
proof -
  let ?b1 = "empty_body(''name'' := JStr ''Box'', ''parent'' := JNull)"
  let ?b2 = "empty_body(''name'' := JStr ''x'')"
  let ?b3 = "empty_body(''quantity'' := JNum 7)"
  note a = put_applies_present_keys [OF auth_bob, of "''c2''" ?b1 v1_example]
  note b = put_applies_present_keys [OF auth_bob, of "''i9''" ?b2 v1_example]
  note c = put_applies_present_keys [OF auth_bob, of "''cat9''" ?b2 v1_example]
  note d = put_applies_present_keys [OF auth_bob, of "''i1''" ?b3 v1_example]
  have f1: "findOne (\<lambda>x. c_id x = ''c2'') (containers scenario_store)
      = Some (mk_container ''c2'' (JStr ''c1'') (Some ''u_admin''))"
    by (simp add: findOne_def scenario_store_def c_id_mk_container)
  have s1: "set_container ?b1 (mk_container ''c2'' (JStr ''c1'') (Some ''u_admin''))
      = mk_container ''c2'' JNull (Some ''u_admin'')\<lparr>c_name := JStr ''Box''\<rparr>"
    by (simp add: set_container_def assign_def empty_body_def mk_container_def)
  have u1: "updateOne (\<lambda>x. c_id x = ''c2'') (set_container ?b1) (containers scenario_store)
      = [mk_container ''c1'' JNull (Some ''u_admin''),
         mk_container ''c2'' JNull (Some ''u_admin'')\<lparr>c_name := JStr ''Box''\<rparr>,
         mk_container ''c3'' JNull (Some ''u_admin'')]"
    by (simp add: scenario_store_def c_id_mk_container s1)
  have 1: "put_containers scenario_store (Some ''bob'') ''c2'' ?b1
      = Inr (Some (mk_container ''c2'' JNull (Some ''u_admin'')\<lparr>c_name := JStr ''Box''\<rparr>),
             scenario_store\<lparr>containers :=
               [mk_container ''c1'' JNull (Some ''u_admin''),
                mk_container ''c2'' JNull (Some ''u_admin'')\<lparr>c_name := JStr ''Box''\<rparr>,
                mk_container ''c3'' JNull (Some ''u_admin'')]\<rparr>)"
    using a [THEN conjunct1, rule_format, OF f1, THEN conjunct1] by (simp only: s1 u1)
  have f2: "findOne (\<lambda>x. i_id x = ''i9'') (items scenario_store) = None"
    by (simp add: findOne_def example_defs)
  have 2: "put_items scenario_store (Some ''bob'') ''i9'' ?b2 = Inr (None, scenario_store)"
    by (rule b [THEN conjunct2, THEN conjunct2, THEN conjunct2, THEN conjunct1, rule_format, OF f2])
  have f3: "findOne (\<lambda>x. cat_id x = ''cat9'') (categories scenario_store) = None"
    by (simp add: findOne_def example_defs)
  have 3: "put_categories scenario_store (Some ''bob'') ''cat9'' ?b2 = Inr (None, scenario_store)"
    by (rule c [THEN conjunct2, THEN conjunct2, THEN conjunct2, THEN conjunct2, THEN conjunct2,
          THEN conjunct1, rule_format, OF f3])
  have f4: "findOne (\<lambda>x. i_id x = ''i1'') (v1_items v1_example) = Some (mk_item ''i1'' ''c3'')"
    by (simp add: findOne_def v1_example_def mk_item_def)
  have s4: "set_item_v1 ?b3 (mk_item ''i1'' ''c3'') = mk_item ''i1'' ''c3''\<lparr>i_quantity := JNum 7\<rparr>"
    by (simp add: set_item_v1_def assign_def empty_body_def mk_item_def)
  have u4: "updateOne (\<lambda>x. i_id x = ''i1'') (set_item_v1 ?b3) (v1_items v1_example)
      = [mk_item ''i1'' ''c3''\<lparr>i_quantity := JNum 7\<rparr>]"
    using s4 by (simp add: v1_example_def mk_item_def)
  have 4: "put_items_v1 v1_example ''i1'' ?b3
      = Inr (Some (mk_item ''i1'' ''c3''\<lparr>i_quantity := JNum 7\<rparr>),
             v1_example\<lparr>v1_items := [mk_item ''i1'' ''c3''\<lparr>i_quantity := JNum 7\<rparr>]\<rparr>)"
    using d [THEN conjunct2, THEN conjunct2, THEN conjunct2, THEN conjunct2, THEN conjunct2,
          THEN conjunct2, THEN conjunct1, rule_format, OF f4, THEN conjunct1]
    by (simp only: s4 u4)
  show ?thesis by (intro conjI) (rule auth_bob, rule 1, rule 2, rule 3, rule 4)
qed

section \<open>Ownership of containers\<close>

text \<open>
  A new container under a parent that has no owner (a container of the older variant) is
  not given the parent's \<^verbatim>\<open>ownerId\<close>: the handler falls back to the creating user.
\<close>

theorem child_of_ownerless_parent_gets_creator:
  "findOne (\<lambda>x. JStr (c_id x) = JStr ''c0'') (containers legacy_store)
     = Some (mk_container ''c0'' JNull None)
   \<and> c_ownerId (mk_container ''c0'' JNull None) = None
   \<and> post_containers 5 legacy_store (Some ''bob'') (empty_body(''parent'' := JStr ''c0''))
     = Inr (\<lparr>c_id = ''c5'', c_name = JUndefined, c_number = JNull, c_photo = JNull,
             c_parent = JStr ''c0'', c_ownerId = Some ''bob'', c_created = 5\<rparr>,
            legacy_store\<lparr>containers := [mk_container ''c0'' JNull None,
              \<lparr>c_id = ''c5'', c_name = JNull, c_number = JNull, c_photo = JNull,
               c_parent = JStr ''c0'', c_ownerId = Some ''bob'', c_created = 5\<rparr>]\<rparr>)"
proof -
  have f: "findOne (\<lambda>x. JStr (c_id x) = JStr ''c0'') (containers legacy_store)
     = Some (mk_container ''c0'' JNull None)"
    by (simp add: findOne_def legacy_store_def c_id_mk_container)
  have f': "findOne (\<lambda>x. c_id x = ''c0'') (containers legacy_store)
     = Some (mk_container ''c0'' JNull None)"
    by (simp add: findOne_def legacy_store_def c_id_mk_container)
  have n: "new_container 5 legacy_store bob_user (empty_body(''parent'' := JStr ''c0''))
     = \<lparr>c_id = ''c5'', c_name = JUndefined, c_number = JNull, c_photo = JNull,
             c_parent = JStr ''c0'', c_ownerId = Some ''bob'', c_created = 5\<rparr>"
    by (simp add: new_container_def new_owner_def f' js_or_def empty_body_def dec_5
        mk_container_def bob_user_def)
  have c: "containers legacy_store = [mk_container ''c0'' JNull None]"
    by (simp add: legacy_store_def)
  show ?thesis
  proof (intro conjI)
    show "findOne (\<lambda>x. JStr (c_id x) = JStr ''c0'') (containers legacy_store)
        = Some (mk_container ''c0'' JNull None)"
      by (rule f)
    show "c_ownerId (mk_container ''c0'' JNull None) = None"
      by (simp add: mk_container_def)
    show "post_containers 5 legacy_store (Some ''bob'') (empty_body(''parent'' := JStr ''c0''))
      = Inr (\<lparr>c_id = ''c5'', c_name = JUndefined, c_number = JNull, c_photo = JNull,
             c_parent = JStr ''c0'', c_ownerId = Some ''bob'', c_created = 5\<rparr>,
            legacy_store\<lparr>containers := [mk_container ''c0'' JNull None,
              \<lparr>c_id = ''c5'', c_name = JNull, c_number = JNull, c_photo = JNull,
               c_parent = JStr ''c0'', c_ownerId = Some ''bob'', c_created = 5\<rparr>]\<rparr>)"
      unfolding post_containers_eq [OF auth_bob_legacy] n c
      by (simp add: stored_container_def serialized_def)
  qed
qed

text \<open>
  Claim C9, as the code has it.  A new container's \<^verbatim>\<open>ownerId\<close> is the parent container's
  \<^verbatim>\<open>ownerId\<close> when the body names a parent that is stored and has a non-empty
  \<^verbatim>\<open>ownerId\<close>; in every other case (no parent given, parent not stored, parent without
  owner) it is the creating user's id.  No request changes the \<^verbatim>\<open>ownerId\<close> of a stored
  container: after any request the list of (id, owner) pairs is the old one, the old one
  with one pair appended, or the old one with one pair deleted.
\<close>

theorem ownerId_set_at_creation_and_kept:
  "(authMiddleware st x_user_id = Inr user \<longrightarrow>
      (\<exists>c. post_containers now st x_user_id b
              = Inr (c, st\<lparr>containers := containers st @ [stored_container c]\<rparr>)
         \<and> c_ownerId (stored_container c) = c_ownerId c
         \<and> (\<not> truthy (b ''parent'') \<longrightarrow> c_ownerId c = Some (u_id user))
         \<and> (\<forall>pc ow. truthy (b ''parent'')
               \<and> findOne (\<lambda>x. JStr (c_id x) = b ''parent'') (containers st) = Some pc
               \<and> c_ownerId pc = Some ow \<and> ow \<noteq> [] \<longrightarrow> c_ownerId c = c_ownerId pc)
         \<and> (\<forall>pc. truthy (b ''parent'')
               \<and> findOne (\<lambda>x. JStr (c_id x) = b ''parent'') (containers st) = Some pc
               \<and> (c_ownerId pc = None \<or> c_ownerId pc = Some [])
               \<longrightarrow> c_ownerId c = Some (u_id user))
         \<and> (truthy (b ''parent'')
               \<and> findOne (\<lambda>x. JStr (c_id x) = b ''parent'') (containers st) = None
             \<longrightarrow> c_ownerId c = Some (u_id user))))
   \<and> (\<forall>req now' token.
         owners (step now' token st req) = owners st
         \<or> (\<exists>x. owners (step now' token st req) = owners st @ [x])
         \<or> (\<exists>k. owners (step now' token st req) = deleteOne (\<lambda>p. fst p = k) (owners st)))"
proof (intro conjI impI allI)
  assume auth: "authMiddleware st x_user_id = Inr user"
  let ?c = "new_container now st user b"
  have own: "c_ownerId ?c = Some (new_owner st user b)"
    by (simp add: new_container_def)
  have "post_containers now st x_user_id b
      = Inr (?c, st\<lparr>containers := containers st @ [stored_container ?c]\<rparr>)"
    by (rule post_containers_eq [OF auth])
  moreover note new_owner_cases [of b st user]
  ultimately show "\<exists>c. post_containers now st x_user_id b
              = Inr (c, st\<lparr>containers := containers st @ [stored_container c]\<rparr>)
         \<and> c_ownerId (stored_container c) = c_ownerId c
         \<and> (\<not> truthy (b ''parent'') \<longrightarrow> c_ownerId c = Some (u_id user))
         \<and> (\<forall>pc ow. truthy (b ''parent'')
               \<and> findOne (\<lambda>x. JStr (c_id x) = b ''parent'') (containers st) = Some pc
               \<and> c_ownerId pc = Some ow \<and> ow \<noteq> [] \<longrightarrow> c_ownerId c = c_ownerId pc)
         \<and> (\<forall>pc. truthy (b ''parent'')
               \<and> findOne (\<lambda>x. JStr (c_id x) = b ''parent'') (containers st) = Some pc
               \<and> (c_ownerId pc = None \<or> c_ownerId pc = Some [])
               \<longrightarrow> c_ownerId c = Some (u_id user))
         \<and> (truthy (b ''parent'')
               \<and> findOne (\<lambda>x. JStr (c_id x) = b ''parent'') (containers st) = None
             \<longrightarrow> c_ownerId c = Some (u_id user))"
    by (intro exI [of _ ?c]) (auto simp: own stored_container_sel)
next
  fix req now' token
  show "owners (step now' token st req) = owners st
         \<or> (\<exists>x. owners (step now' token st req) = owners st @ [x])
         \<or> (\<exists>k. owners (step now' token st req) = deleteOne (\<lambda>p. fst p = k) (owners st))"
    by (rule owners_step)
qed

theorem ownerId_set_at_creation_and_kept_witness:
  "authMiddleware scenario_store (Some ''bob'') = Inr bob_user
   \<and> (\<exists>c. post_containers 5 scenario_store (Some ''bob'') (empty_body(''parent'' := JStr ''c1''))
            = Inr (c, scenario_store\<lparr>containers := containers scenario_store @ [stored_container c]\<rparr>)
          \<and> c_ownerId c = Some ''u_admin'')
   \<and> (\<exists>c. post_containers 5 scenario_store (Some ''bob'') empty_body
            = Inr (c, scenario_store\<lparr>containers := containers scenario_store @ [stored_container c]\<rparr>)
          \<and> c_ownerId c = Some ''bob'')
   \<and> owners (step 5 [] scenario_store
        (PutContainers (Some ''bob'') ''c1'' (empty_body(''ownerId'' := JStr ''bob''))))
      = owners scenario_store"
proof -
  let ?b = "empty_body(''parent'' := JStr ''c1'')"
  note a = ownerId_set_at_creation_and_kept [of scenario_store "Some ''bob''" bob_user 5 ?b,
      THEN conjunct1, rule_format, OF auth_bob]
  note b = ownerId_set_at_creation_and_kept [of scenario_store "Some ''bob''" bob_user 5 empty_body,
      THEN conjunct1, rule_format, OF auth_bob]
  have t: "truthy (?b ''parent'')" by (simp add: empty_body_def)
  have f: "findOne (\<lambda>x. JStr (c_id x) = ?b ''parent'') (containers scenario_store)
      = Some (mk_container ''c1'' JNull (Some ''u_admin''))"
    by (simp add: findOne_def scenario_store_def c_id_mk_container)
  have o: "c_ownerId (mk_container ''c1'' JNull (Some ''u_admin'')) = Some ''u_admin''"
    by (simp add: mk_container_def)
  from a obtain c where c: "post_containers 5 scenario_store (Some ''bob'') ?b
            = Inr (c, scenario_store\<lparr>containers := containers scenario_store @ [stored_container c]\<rparr>)"
     and inh: "\<forall>pc ow. truthy (?b ''parent'')
               \<and> findOne (\<lambda>x. JStr (c_id x) = ?b ''parent'') (containers scenario_store) = Some pc
               \<and> c_ownerId pc = Some ow \<and> ow \<noteq> [] \<longrightarrow> c_ownerId c = c_ownerId pc"
    by (elim exE conjE)
  have "c_ownerId c = Some ''u_admin''"
    using inh [rule_format, of "mk_container ''c1'' JNull (Some ''u_admin'')" "''u_admin''"] t f o
    by simp
  with c have 1: "\<exists>c. post_containers 5 scenario_store (Some ''bob'') ?b
            = Inr (c, scenario_store\<lparr>containers := containers scenario_store @ [stored_container c]\<rparr>)
          \<and> c_ownerId c = Some ''u_admin''"
    by blast
  from b obtain d where d: "post_containers 5 scenario_store (Some ''bob'') empty_body
            = Inr (d, scenario_store\<lparr>containers := containers scenario_store @ [stored_container d]\<rparr>)"
     and own: "\<not> truthy (empty_body ''parent'') \<longrightarrow> c_ownerId d = Some (u_id bob_user)"
    by (elim exE conjE)
  have "c_ownerId d = Some ''bob''"
    using own by (simp add: empty_body_def bob_user_def)
  with d have 2: "\<exists>c. post_containers 5 scenario_store (Some ''bob'') empty_body
            = Inr (c, scenario_store\<lparr>containers := containers scenario_store @ [stored_container c]\<rparr>)
          \<and> c_ownerId c = Some ''bob''"
    by blast
  have 3: "owners (step 5 [] scenario_store
        (PutContainers (Some ''bob'') ''c1'' (empty_body(''ownerId'' := JStr ''bob''))))
      = owners scenario_store"
    unfolding owners_def containers_step_put auth_bob
    by (simp add: map_updateOne_same set_container_def)
  show ?thesis by (intro conjI) (rule auth_bob, rule 1, rule 2, rule 3)
qed

section \<open>The parent graph\<close>




section \<open>Redeeming an invite\<close>

text \<open>
  A second \<^verbatim>\<open>activate\<close> with the same token does not always answer 404: the handler
  checks the code before it looks the token up, so the code just chosen is answered with
  400 "code taken" and a malformed code with 400 "code format".
\<close>

theorem second_activate_is_not_always_not_found:
  "post_auth_activate 500 invite_store invite_body =
     Inr (omit [''code'', ''_id''] (user_obj (activated (JStr ''4321'') carol_user)), invite_store_used)
   \<and> post_auth_activate 600 invite_store_used invite_body = Inl (400, CodeTaken)
   \<and> post_auth_activate 600 invite_store_used (invite_body(''code'' := JStr ''12''))
       = Inl (400, CodeFormat)"
proof (intro conjI)
  show "post_auth_activate 500 invite_store invite_body =
     Inr (omit [''code'', ''_id''] (user_obj (activated (JStr ''4321'') carol_user)), invite_store_used)"
    using activate_first [OF invite_facts(1-9)] unfolding invite_users .
  have "post_auth_activate 600 invite_store_used invite_body =
      (if \<not> truthy (invite_body ''code'') then Inl (400, FillAllFields)
       else if code_malformed (invite_body ''code'') then Inl (400, CodeFormat)
       else if invite_body ''code'' = JStr ''4321''
               \<or> (\<exists>u\<in>set (users invite_store). u_code u = invite_body ''code'' \<and> u_isActive u)
       then Inl (400, CodeTaken)
       else Inl (404, InviteNotFound))"
    using activate_second [where b' = invite_body and now' = 600 and code = "JStr ''4321''",
        OF invite_facts(1) invite_facts(2) invite_facts(7) invite_facts(10)]
    unfolding invite_users .
  then show "post_auth_activate 600 invite_store_used invite_body = Inl (400, CodeTaken)"
    using invite_facts by simp
  have t: "(invite_body(''code'' := JStr ''12'')) ''inviteToken'' = JStr ''T''"
    by (simp add: invite_body_def)
  have "post_auth_activate 600 invite_store_used (invite_body(''code'' := JStr ''12'')) =
      (if \<not> truthy ((invite_body(''code'' := JStr ''12'')) ''code'') then Inl (400, FillAllFields)
       else if code_malformed ((invite_body(''code'' := JStr ''12'')) ''code'') then Inl (400, CodeFormat)
       else if (invite_body(''code'' := JStr ''12'')) ''code'' = JStr ''4321''
               \<or> (\<exists>u\<in>set (users invite_store).
                      u_code u = (invite_body(''code'' := JStr ''12'')) ''code'' \<and> u_isActive u)
       then Inl (400, CodeTaken)
       else Inl (404, InviteNotFound))"
    using activate_second [where b' = "invite_body(''code'' := JStr ''12'')" and now' = 600
        and code = "JStr ''4321''", OF t invite_facts(2) invite_facts(7) invite_facts(10)]
    unfolding invite_users .
  then show "post_auth_activate 600 invite_store_used (invite_body(''code'' := JStr ''12''))
       = Inl (400, CodeFormat)"
    by simp
qed

text \<open>
  Claim C6, as the code has it.  For an invite token held by exactly one inactive user
  with an unexpired invite, in a store with unique user ids, and a well-formed code that
  no active user has: the first \<^verbatim>\<open>activate\<close> succeeds, sets the user's code, makes the
  user active and clears \<^verbatim>\<open>inviteToken\<close> and \<^verbatim>\<open>inviteExpires\<close>.  Every second call
  with that token fails: with 404 (not found) when its code is well-formed and held by
  no active user, and otherwise with the 400 of the failed code check (missing,
  malformed, or taken, as the code chosen by the first call is).
\<close>

theorem activate_single_use:
  assumes "b ''inviteToken'' = tokv" "truthy tokv"
    and "b ''code'' = code" "truthy code" "\<not> code_malformed code"
    and "findOne (\<lambda>u. u_code u = code \<and> u_isActive u) (users st) = None"
    and "findOne (\<lambda>u. u_inviteToken u = tokv \<and> \<not> u_isActive u) (users st) = Some user"
    and "\<not> invite_expired now user"
    and "distinct (map u_id (users st))"
    and "\<forall>u\<in>set (users st). u_inviteToken u = tokv \<and> \<not> u_isActive u \<longrightarrow> u = user"
  shows "post_auth_activate now st b =
           Inr (omit [''code'', ''_id''] (user_obj (activated code user)),
                st\<lparr>users := map (\<lambda>u. if u = user then activated code user else u) (users st)\<rparr>)
       \<and> u_code (activated code user) = code
       \<and> u_isActive (activated code user)
       \<and> u_inviteToken (activated code user) = JNull
       \<and> u_inviteExpires (activated code user) = None
       \<and> (\<forall>now' b'. b' ''inviteToken'' = tokv \<longrightarrow>
             post_auth_activate now'
               (st\<lparr>users := map (\<lambda>u. if u = user then activated code user else u) (users st)\<rparr>) b'
             = (if \<not> truthy (b' ''code'') then Inl (400, FillAllFields)
                else if code_malformed (b' ''code'') then Inl (400, CodeFormat)
                else if b' ''code'' = code
                        \<or> (\<exists>u\<in>set (users st). u_code u = b' ''code'' \<and> u_isActive u)
                then Inl (400, CodeTaken)
                else Inl (404, InviteNotFound)))"
proof (intro conjI allI impI)
  show "post_auth_activate now st b =
           Inr (omit [''code'', ''_id''] (user_obj (activated code user)),
                st\<lparr>users := map (\<lambda>u. if u = user then activated code user else u) (users st)\<rparr>)"
    by (rule activate_first [OF assms(1-9)])
next
  fix now' b' assume "b' ''inviteToken'' = tokv"
  then show "post_auth_activate now'
               (st\<lparr>users := map (\<lambda>u. if u = user then activated code user else u) (users st)\<rparr>) b'
             = (if \<not> truthy (b' ''code'') then Inl (400, FillAllFields)
                else if code_malformed (b' ''code'') then Inl (400, CodeFormat)
                else if b' ''code'' = code
                        \<or> (\<exists>u\<in>set (users st). u_code u = b' ''code'' \<and> u_isActive u)
                then Inl (400, CodeTaken)
                else Inl (404, InviteNotFound))"
    by (rule activate_second [OF _ assms(2) assms(7) assms(10)])
qed (simp_all add: activated_def)

theorem activate_single_use_witness:
  "post_auth_activate 500 invite_store invite_body =
     Inr (omit [''code'', ''_id''] (user_obj (activated (JStr ''4321'') carol_user)), invite_store_used)
   \<and> post_auth_activate 600 invite_store_used (invite_body(''code'' := JStr ''9999''))
       = Inl (404, InviteNotFound)"
proof -
  note inst = activate_single_use [OF invite_facts, unfolded invite_users]
  have t: "(invite_body(''code'' := JStr ''9999'')) ''inviteToken'' = JStr ''T''"
    by (simp add: invite_body_def)
  have n: "\<not> (\<exists>u\<in>set (users invite_store). u_code u = JStr ''9999'' \<and> u_isActive u)"
    by (simp add: invite_store_def admin_user_def carol_user_def)
  have "post_auth_activate 600 invite_store_used (invite_body(''code'' := JStr ''9999''))
       = Inl (404, InviteNotFound)"
    using inst [THEN conjunct2, THEN conjunct2, THEN conjunct2, THEN conjunct2, THEN conjunct2,
        rule_format, of "invite_body(''code'' := JStr ''9999'')" 600, OF t] n
    by (simp add: is_digit_def)
  then show ?thesis using inst [THEN conjunct1] by simp
qed

section \<open>The login code is never sent\<close>

text \<open>
  Claim C8.  No operation that returns a user record includes the \<^verbatim>\<open>code\<close> field: the
  user object in the response of login, of activate, of the user listing and of user
  creation has no key \<^verbatim>\<open>code\<close>, for every store, caller and request body; nor has the
  invite lookup.
\<close>

theorem user_responses_omit_code:
  "(\<forall>ob. post_auth_login st b = Inr ob \<longrightarrow> ''code'' \<notin> keys ob)
   \<and> (\<forall>ob st'. post_auth_activate now st b = Inr (ob, st') \<longrightarrow> ''code'' \<notin> keys ob)
   \<and> (\<forall>obs. get_users st x_user_id = Inr obs \<longrightarrow> (\<forall>ob\<in>set obs. ''code'' \<notin> keys ob))
   \<and> (\<forall>ob tok st'. post_users now token st x_user_id b = Inr ((ob, tok), st')
         \<longrightarrow> ''code'' \<notin> keys ob)
   \<and> (\<forall>ob t. get_auth_invite now st t = Inr ob \<longrightarrow> ''code'' \<notin> keys ob)"
proof (intro conjI allI impI ballI)
  fix ob assume "post_auth_login st b = Inr ob"
  then show "''code'' \<notin> keys ob" by (rule login_safe)
next
  fix ob st' assume "post_auth_activate now st b = Inr (ob, st')"
  then show "''code'' \<notin> keys ob" by (rule activate_safe)
next
  fix obs ob assume "get_users st x_user_id = Inr obs" "ob \<in> set obs"
  then show "''code'' \<notin> keys ob" by (rule get_users_safe)
next
  fix ob tok st' assume "post_users now token st x_user_id b = Inr ((ob, tok), st')"
  then show "''code'' \<notin> keys ob" by (rule post_users_safe)
next
  fix ob t assume "get_auth_invite now st t = Inr ob"
  then show "''code'' \<notin> keys ob" by (rule invite_safe)
qed

theorem user_responses_omit_code_witness:
  "post_auth_login scenario_store (empty_body(''code'' := JStr ''1234''))
     = Inr (omit [''code'', ''_id''] (user_obj bob_user))
   \<and> ''code'' \<notin> keys (omit [''code'', ''_id''] (user_obj bob_user))
   \<and> ''code'' \<in> keys (user_obj bob_user)
   \<and> post_auth_activate 500 invite_store invite_body
     = Inr (omit [''code'', ''_id''] (user_obj (activated (JStr ''4321'') carol_user)), invite_store_used)
   \<and> ''code'' \<notin> keys (omit [''code'', ''_id''] (user_obj (activated (JStr ''4321'') carol_user)))
   \<and> get_users scenario_store (Some ''u_admin'')
     = Inr [omit [''code'', ''_id''] (user_obj admin_user), omit [''code'', ''_id''] (user_obj bob_user)]
   \<and> ''code'' \<notin> keys (omit [''code'', ''_id''] (user_obj admin_user))
   \<and> post_users 5 ''tok'' scenario_store (Some ''u_admin'') (empty_body(''name'' := JStr ''Dan''))
     = Inr ((omit [''code'', ''_id''] (user_obj dan_user), ''tok''),
            scenario_store\<lparr>users := users scenario_store @ [dan_user]\<rparr>)
   \<and> ''code'' \<notin> keys (omit [''code'', ''_id''] (user_obj dan_user))"
proof -
  note a = user_responses_omit_code [of scenario_store "empty_body(''code'' := JStr ''1234'')"
      5 "Some ''u_admin''" "''tok''"]
  note b = user_responses_omit_code [of invite_store invite_body 500 "Some ''u_admin''" "''tok''"]
  note c = user_responses_omit_code [of scenario_store "empty_body(''name'' := JStr ''Dan'')"
      5 "Some ''u_admin''" "''tok''"]
  have act: "post_auth_activate 500 invite_store invite_body
     = Inr (omit [''code'', ''_id''] (user_obj (activated (JStr ''4321'') carol_user)), invite_store_used)"
    using activate_first [OF invite_facts(1-9)] unfolding invite_users .
  have 1: "''code'' \<notin> keys (omit [''code'', ''_id''] (user_obj bob_user))"
    by (rule a [THEN conjunct1, rule_format, OF login_bob])
  have 2: "''code'' \<notin> keys (omit [''code'', ''_id''] (user_obj (activated (JStr ''4321'') carol_user)))"
    by (rule b [THEN conjunct2, THEN conjunct1, rule_format, OF act])
  have 3: "''code'' \<notin> keys (omit [''code'', ''_id''] (user_obj admin_user))"
    using a [THEN conjunct2, THEN conjunct2, THEN conjunct1, rule_format, OF list_users] by simp
  have 4: "''code'' \<notin> keys (omit [''code'', ''_id''] (user_obj dan_user))"
    by (rule c [THEN conjunct2, THEN conjunct2, THEN conjunct2, THEN conjunct1, rule_format,
          OF create_dan])
  have 5: "''code'' \<in> keys (user_obj bob_user)"
    by (simp add: keys_def user_obj_def)
  show ?thesis
    by (intro conjI) (rule login_bob, rule 1, rule 5, rule act, rule 2, rule list_users, rule 3,
        rule create_dan, rule 4)
qed

end
